theory Spec2Isabelle
  imports Complex_Main "HOL-Library.Sublist" "HOL-Library.Log_Nat"
begin

section \<open>The 432 Hz converter: a shallow embedding\<close>

text \<open>
  The repository holds two near-identical scripts, \<^verbatim>\<open>commandconverter432.py\<close> and
  \<^verbatim>\<open>converter.py\<close>. Both build a table of candidate tunings, detect the
  tuning of a recording from its spectrum, change the playback rate, and drive this over
  files, directories and downloaded media. Where the two scripts agree one definition
  stands for both; where they differ (the cleanup of the download directory) each has its
  own definition.

  Python floats are modelled by real numbers with exact arithmetic, except where a
  discrete result of the program is decided by binary64 rounding: there the rounding is
  written out (\<open>fl\<close> below). Strings are byte strings and \<open>lower\<close> acts on ASCII
  letters.
\<close>

subsection \<open>Python values and errors\<close>

datatype error =
    IndexError
  | KeyError
  | ZeroDivisionError
  | ValueError
  | CouldntDecodeError
  | CouldntEncodeError
  | DownloadError
  | OSError
  | AudioopError
  | TooManyMissingFrames

text \<open>\<^verbatim>\<open>int(x)\<close> on a float truncates towards zero.\<close>

definition py_int :: "real \<Rightarrow> int" where
  "py_int x = (if 0 \<le> x then \<lfloor>x\<rfloor> else \<lceil>x\<rceil>)"

text \<open>
  \<^verbatim>\<open>np.round\<close> and Python's \<^verbatim>\<open>round\<close> on a float round to the nearest
  integer, a tie to the even neighbour.
\<close>

definition rint :: "real \<Rightarrow> int" where
  "rint x =
     (let f = \<lfloor>x\<rfloor>; r = x - of_int f
      in if r < 1 / 2 then f else if 1 / 2 < r then f + 1 else if even f then f else f + 1)"

subsection \<open>Binary64 rounding\<close>

text \<open>
  \<open>exponent x\<close> is the exponent of the binade of a positive \<open>x\<close>, \<open>ulp x\<close> the
  spacing of binary64 numbers there (53 significant bits) and \<open>fl x\<close> the binary64
  number nearest to \<open>x\<close>, ties to even. Subnormal numbers and overflow are not
  modelled: the values rounded below lie between \<open>0.1\<close> and \<open>450\<close>.
\<close>

definition exponent :: "real \<Rightarrow> int" where
  "exponent x =
     (if 1 \<le> x then int (floorlog 2 (nat \<lfloor>x\<rfloor>)) - 1
      else - int (floorlog 2 (nat \<lceil>1 / x\<rceil> - 1)))"

definition ulp :: "real \<Rightarrow> real" where
  "ulp x = power_int 2 (exponent x - 52)"

definition fl :: "real \<Rightarrow> real" where
  "fl x = (if x = 0 then 0
           else if x < 0 then - (of_int (rint (- x / ulp (- x))) * ulp (- x))
           else of_int (rint (x / ulp x)) * ulp x)"

subsection \<open>Strings and paths\<close>

definition lower_char :: "char \<Rightarrow> char" where
  "lower_char c =
     (case map_of (zip ''ABCDEFGHIJKLMNOPQRSTUVWXYZ'' ''abcdefghijklmnopqrstuvwxyz'') c of
        Some d \<Rightarrow> d | None \<Rightarrow> c)"

definition lower :: "string \<Rightarrow> string" where
  "lower s = map lower_char s"

text \<open>\<^verbatim>\<open>s.endswith(t)\<close> with a tuple \<open>t\<close>: some member of the tuple is a suffix.\<close>

definition endswith :: "string \<Rightarrow> string list \<Rightarrow> bool" where
  "endswith s sufs = list_ex (\<lambda>x. suffix x s) sufs"

definition startswith :: "string \<Rightarrow> string \<Rightarrow> bool" where
  "startswith s p = prefix p s"

definition SUPPORTED_FORMATS :: "string list" where
  "SUPPORTED_FORMATS = [''.mp3'', ''.wav'', ''.flac'', ''.aac'', ''.m4a'', ''.wma'', ''.ogg'']"

definition TARGET_FREQUENCY :: real where
  "TARGET_FREQUENCY = 432"

subsection \<open>The candidate grid\<close>

text \<open>The note frequencies of the 440 Hz tuning, \<^verbatim>\<open>tone_freq\<close>.\<close>

definition tone_freq :: "real list" where
  "tone_freq =
    [1635/100, 1732/100, 1835/100, 1945/100, 206/10, 2183/100, 2312/100, 245/10, 2596/100, 275/10, 2914/100, 3087/100,
     327/10, 3465/100, 3671/100, 3889/100, 412/10, 4365/100, 4625/100, 49, 5191/100, 55, 5827/100, 6174/100,
     6541/100, 693/10, 7342/100, 7778/100, 8241/100, 8731/100, 925/10, 98, 10383/100, 110, 11654/100, 12347/100,
     13081/100, 13859/100, 14683/100, 15556/100, 16481/100, 17461/100, 185, 196, 20765/100, 220, 23308/100, 24694/100,
     26163/100, 27718/100, 29366/100, 31113/100, 32963/100, 34923/100, 36999/100, 392, 4153/10, 440, 46616/100, 49388/100,
     52325/100, 55437/100, 58733/100, 62225/100, 65925/100, 69846/100, 73999/100, 78399/100, 83061/100, 880, 93233/100, 98777/100,
     10465/10, 110873/100, 117466/100, 124451/100, 131851/100, 139691/100, 147998/100, 156798/100, 166122/100, 1760, 186466/100, 197553/100,
     2093, 221746/100, 234932/100, 248902/100, 263702/100, 279383/100, 295996/100, 313596/100, 332244/100, 3520, 372931/100, 395107/100,
     418601/100, 443492/100, 469863/100, 497803/100, 527404/100, 558765/100, 591991/100, 627193/100, 664488/100, 7040, 745862/100, 790213/100]"

text \<open>
  \<^verbatim>\<open>np.arange(start, stop, step)\<close> on floats. numpy documents the length of the
  result as \<^verbatim>\<open>ceil((stop - start)/step)\<close>, evaluated in binary64, and warns
  that the last element may then exceed \<open>stop\<close>; the subtraction and the division are
  rounded here as the machine rounds them. The elements are kept as the exact values
  \<open>start + i * step\<close> (numpy's own differ from them by less than \<open>10\<^sup>-\<^sup>1\<^sup>1\<close>).
\<close>

definition arange_len :: "real \<Rightarrow> real \<Rightarrow> real \<Rightarrow> nat" where
  "arange_len start stop step = nat \<lceil>fl (fl (fl stop - fl start) / fl step)\<rceil>"

definition np_arange :: "real \<Rightarrow> real \<Rightarrow> real \<Rightarrow> real list" where
  "np_arange start stop step =
     map (\<lambda>i. start + of_nat i * step) [0..<arange_len start stop step]"

text \<open>\<^verbatim>\<open>np.arange(424.0, 448.1, 0.1)\<close>, the candidates of both the table and the scan.\<close>

definition candidates :: "real list" where
  "candidates = np_arange 424 (4481 / 10) (1 / 10)"

text \<open>
  \<^verbatim>\<open>tones = {frequency: tone_freq * frequency / 440.0 for frequency in np.arange(...)}\<close>.
  \<^verbatim>\<open>commandconverter432.py\<close> keys the dictionary by \<^verbatim>\<open>str(frequency)\<close>, which is
  injective on floats, and looks it up by the same string; \<^verbatim>\<open>converter.py\<close> keys
  it by the float. Both are the map below.
\<close>

definition ladder :: "real \<Rightarrow> real list" where
  "ladder frequency = map (\<lambda>t. t * frequency / 440) tone_freq"

definition tones :: "real \<rightharpoonup> real list" where
  "tones = map_of (map (\<lambda>frequency. (frequency, ladder frequency)) candidates)"

subsection \<open>Batch selection\<close>

text \<open>
  The list comprehension of \<^verbatim>\<open>batch_convert_directory\<close> over the directory
  listing.
\<close>

definition files_to_convert :: "string list \<Rightarrow> string list" where
  "files_to_convert listing =
     filter (\<lambda>f. endswith (lower f) SUPPORTED_FORMATS \<and> \<not> startswith f ''432hz_'') listing"

subsection \<open>The spectral tuning detector: scoring and selection\<close>

text \<open>
  numpy indexing \<^verbatim>\<open>a[i]\<close>: an index from \<open>-len\<close> up to \<open>len - 1\<close> is
  accepted, a negative one counting from the end; any other raises \<^verbatim>\<open>IndexError\<close>.
  \<open>np_take\<close> is the indexing by an array of indices, \<^verbatim>\<open>a[indices]\<close>.
\<close>

definition np_index :: "'a list \<Rightarrow> int \<Rightarrow> error + 'a" where
  "np_index xs i =
     (if 0 \<le> i \<and> i < int (length xs) then Inr (xs ! nat i)
      else if - int (length xs) \<le> i \<and> i < 0 then Inr (xs ! nat (i + int (length xs)))
      else Inl IndexError)"

fun np_take :: "'a list \<Rightarrow> int list \<Rightarrow> error + 'a list" where
  "np_take xs [] = Inr []"
| "np_take xs (i # is) =
     (case np_index xs i of
        Inl e \<Rightarrow> Inl e
      | Inr v \<Rightarrow> (case np_take xs is of Inl e \<Rightarrow> Inl e | Inr vs \<Rightarrow> Inr (v # vs)))"

text \<open>
  The score of one candidate:
  \<^verbatim>\<open>np.sum(fft_normed[np.round(tone / freqstep).astype(int)])\<close>.
\<close>

definition score :: "real \<Rightarrow> real list \<Rightarrow> real list \<Rightarrow> error + real" where
  "score freqstep fft_normed tone =
     (case np_take fft_normed (map (\<lambda>t. rint (t / freqstep)) tone) of
        Inl e \<Rightarrow> Inl e
      | Inr vs \<Rightarrow> Inr (sum_list vs))"

text \<open>
  The loop of \<^verbatim>\<open>analyze_tone\<close> over the candidates, with its two variables
  \<^verbatim>\<open>max_sum\<close> and \<^verbatim>\<open>max_freq\<close>; an exception of the body leaves the loop.
\<close>

fun scan :: "real \<Rightarrow> real list \<Rightarrow> real list \<Rightarrow> real \<times> real \<Rightarrow> error + real \<times> real" where
  "scan freqstep fft_normed [] best = Inr best"
| "scan freqstep fft_normed (frequency # rest) (max_sum, max_freq) =
     (case tones frequency of
        None \<Rightarrow> Inl KeyError
      | Some tone \<Rightarrow>
          (case score freqstep fft_normed tone of
             Inl e \<Rightarrow> Inl e
           | Inr sum_freq \<Rightarrow>
               scan freqstep fft_normed rest
                 (if sum_freq > max_sum then (sum_freq, frequency) else (max_sum, max_freq))))"

text \<open>
  The part of \<^verbatim>\<open>analyze_tone\<close> after the transform, from the sample rate of the
  song and the normalized magnitudes: \<^verbatim>\<open>freqstep = sample_rate / samples_len\<close>, then
  the loop started at \<^verbatim>\<open>max_sum = 0\<close>, \<^verbatim>\<open>max_freq = 0\<close>. An empty sample array
  raises (the division by its length in \<^verbatim>\<open>commandconverter432.py\<close>, the transform
  itself in \<^verbatim>\<open>converter.py\<close>). With a sample rate of zero numpy divides to infinity,
  whose conversion to an integer is no valid index.
\<close>

definition find_tuning :: "int \<Rightarrow> real list \<Rightarrow> error + real" where
  "find_tuning sample_rate fft_normed =
     (if fft_normed = [] then Inl ZeroDivisionError
      else if sample_rate = 0 then Inl IndexError
      else case scan (of_int sample_rate / of_nat (length fft_normed)) fft_normed candidates (0, 0) of
             Inl e \<Rightarrow> Inl e
           | Inr (max_sum, max_freq) \<Rightarrow> Inr max_freq)"

text \<open>
  The aggregate score in the words of the specification: the sum of the normalized
  magnitudes at the bins \<open>round(freq / freqstep)\<close> of the ladder of a candidate.
\<close>

definition aggregate :: "real \<Rightarrow> real list \<Rightarrow> real \<Rightarrow> real" where
  "aggregate freqstep fft_normed c =
     (\<Sum>t\<leftarrow>ladder c. fft_normed ! nat (rint (t / freqstep)))"

subsection \<open>Sample buffers\<close>

text \<open>
  A decoded sample buffer is a pydub \<^verbatim>\<open>AudioSegment\<close>: a frame rate, a channel
  count, a sample width in bytes and the samples, interleaved by channel. The operations
  below are those of pydub that the scripts call. The sample rate converter of the
  \<^verbatim>\<open>audioop\<close> module, \<^verbatim>\<open>ratecv\<close>, is a parameter (sample width, channels,
  input rate, output rate, samples). A decoded file has a positive frame rate and at least
  one channel.
\<close>

record AudioSegment =
  frame_rate :: int
  channels :: nat
  sample_width :: nat
  samples :: "int list"

type_synonym ratecv = "nat \<Rightarrow> nat \<Rightarrow> int \<Rightarrow> int \<Rightarrow> int list \<Rightarrow> int list"

definition frame_count :: "AudioSegment \<Rightarrow> nat" where
  "frame_count seg = length (samples seg) div channels seg"

definition duration_seconds :: "AudioSegment \<Rightarrow> real" where
  "duration_seconds seg =
     (if frame_rate seg = 0 then 0 else of_nat (frame_count seg) / of_int (frame_rate seg))"

definition len_ms :: "AudioSegment \<Rightarrow> int" where
  "len_ms seg = rint (1000 * (of_nat (frame_count seg) / of_int (frame_rate seg)))"

text \<open>
  \<^verbatim>\<open>AudioSegment.silent(duration)\<close>: mono 16-bit silence at pydub's default frame
  rate of 11025 Hz, \<^verbatim>\<open>int(frame_rate * (duration / 1000.0))\<close> frames long.
\<close>

definition silent :: "int \<Rightarrow> AudioSegment" where
  "silent duration =
     \<lparr>frame_rate = 11025, channels = 1, sample_width = 2,
      samples = replicate (nat (py_int (11025 * (of_int duration / 1000)))) 0\<rparr>"

text \<open>\<open>frames c xs\<close> cuts interleaved samples into frames of \<open>c\<close> samples.\<close>

fun frames :: "nat \<Rightarrow> 'a list \<Rightarrow> 'a list list" where
  "frames c xs = (if c = 0 \<or> length xs < c then [] else take c xs # frames c (drop c xs))"

declare frames.simps [simp del]

text \<open>
  \<^verbatim>\<open>set_channels\<close>: the segment itself when the count is unchanged, else mono to
  stereo by doubling, stereo to mono by averaging, several channels to mono by summing the
  floor quotients, mono to several by repetition.
\<close>

definition set_channels :: "nat \<Rightarrow> AudioSegment \<Rightarrow> error + AudioSegment" where
  "set_channels n seg =
     (if n = channels seg then Inr seg
      else if n = 2 \<and> channels seg = 1 then
        Inr (seg\<lparr>channels := 2, samples := concat (map (\<lambda>x. [x, x]) (samples seg))\<rparr>)
      else if n = 1 \<and> channels seg = 2 then
        Inr (seg\<lparr>channels := 1,
                 samples := map (\<lambda>fr. \<lfloor>of_int (fr ! 0) * (1 / 2) + of_int (fr ! 1) * (1 / 2 :: real)\<rfloor>)
                              (frames 2 (samples seg))\<rparr>)
      else if n = 1 then
        Inr (seg\<lparr>channels := 1,
                 samples := map (\<lambda>fr. \<Sum>x\<leftarrow>fr. x div int (channels seg))
                              (frames (channels seg) (samples seg))\<rparr>)
      else if channels seg = 1 then
        Inr (seg\<lparr>channels := n, samples := concat (map (replicate n) (samples seg))\<rparr>)
      else Inl ValueError)"

text \<open>
  \<^verbatim>\<open>set_frame_rate\<close>: the segment itself when the rate is unchanged, else the
  samples converted by \<^verbatim>\<open>audioop.ratecv\<close>, which refuses a rate that is not
  positive.
\<close>

definition set_frame_rate :: "ratecv \<Rightarrow> int \<Rightarrow> AudioSegment \<Rightarrow> error + AudioSegment" where
  "set_frame_rate rc r seg =
     (if r = frame_rate seg then Inr seg
      else if samples seg = [] then Inr (seg\<lparr>frame_rate := r\<rparr>)
      else if frame_rate seg \<le> 0 \<or> r \<le> 0 then Inl AudioopError
      else Inr (seg\<lparr>frame_rate := r,
                    samples := rc (sample_width seg) (channels seg) (frame_rate seg) r (samples seg)\<rparr>))"

definition lin2lin :: "nat \<Rightarrow> nat \<Rightarrow> int \<Rightarrow> int" where
  "lin2lin w w' x = (x * 2 ^ (8 * (4 - w))) div 2 ^ (8 * (4 - w'))"

definition set_sample_width :: "nat \<Rightarrow> AudioSegment \<Rightarrow> AudioSegment" where
  "set_sample_width w seg =
     (if w = sample_width seg then seg
      else seg\<lparr>sample_width := w, samples := map (lin2lin (sample_width seg) w) (samples seg)\<rparr>)"

text \<open>
  Concatenation \<^verbatim>\<open>seg1 + seg2\<close>: pydub first brings both segments to the larger
  channel count, the larger frame rate and the larger sample width, each by
  \<^verbatim>\<open>set_channels(...).set_frame_rate(...).set_sample_width(...)\<close>.
\<close>

definition sync1 :: "ratecv \<Rightarrow> nat \<Rightarrow> int \<Rightarrow> nat \<Rightarrow> AudioSegment \<Rightarrow> error + AudioSegment" where
  "sync1 rc c r w seg =
     (case set_channels c seg of
        Inl e \<Rightarrow> Inl e
      | Inr s1 \<Rightarrow>
          (case set_frame_rate rc r s1 of
             Inl e \<Rightarrow> Inl e
           | Inr s2 \<Rightarrow> Inr (set_sample_width w s2)))"

definition append :: "ratecv \<Rightarrow> AudioSegment \<Rightarrow> AudioSegment \<Rightarrow> error + AudioSegment" where
  "append rc seg1 seg2 =
     (let c = max (channels seg1) (channels seg2);
          r = max (frame_rate seg1) (frame_rate seg2);
          w = max (sample_width seg1) (sample_width seg2)
      in case sync1 rc c r w seg1 of
           Inl e \<Rightarrow> Inl e
         | Inr s1 \<Rightarrow>
             (case sync1 rc c r w seg2 of
                Inl e \<Rightarrow> Inl e
              | Inr s2 \<Rightarrow> Inr (s1\<lparr>samples := samples s1 @ samples s2\<rparr>)))"

text \<open>
  The slice \<^verbatim>\<open>seg[:stop]\<close> in milliseconds: the end is cut to the length of the
  segment in whole milliseconds, turned into a frame index by
  \<^verbatim>\<open>int(ms * (frame_rate / 1000.0))\<close>, and frames that the rounding of the length
  asks for beyond the data are filled with silence (at most two milliseconds of them).
\<close>

definition slice_to :: "int \<Rightarrow> AudioSegment \<Rightarrow> error + AudioSegment" where
  "slice_to stop seg =
     (if frame_rate seg = 0 then Inl ZeroDivisionError
      else
        let end_ms = min stop (len_ms seg);
            end_frame = nat (py_int (of_int end_ms * (of_int (frame_rate seg) / 1000)));
            data = take (end_frame * channels seg) (samples seg);
            missing_frames = (end_frame * channels seg - length data) div channels seg
        in if of_nat missing_frames > 2 * (of_int (frame_rate seg) / 1000 :: real)
           then Inl TooManyMissingFrames
           else Inr (seg\<lparr>samples := data @ replicate (missing_frames * channels seg) 0\<rparr>))"

text \<open>
  The transform: \<^verbatim>\<open>np.abs(np.fft.fft(samples)) / len(fft_result)\<close>, the magnitude of
  the discrete Fourier transform divided by the number of samples.
\<close>

definition dft :: "int list \<Rightarrow> nat \<Rightarrow> complex" where
  "dft xs k =
     (\<Sum>n<length xs. of_int (xs ! n) * cis (- 2 * pi * of_nat k * of_nat n / of_nat (length xs)))"

definition fft_normed :: "int list \<Rightarrow> real list" where
  "fft_normed xs = map (\<lambda>k. cmod (dft xs k) / of_nat (length xs)) [0..<length xs]"

text \<open>
  \<^verbatim>\<open>analyze_tone\<close>: the padding, the first 100 seconds in mono, the transform and
  the scan. The frequency step uses the frame rate of the song as it was passed in.
\<close>

definition pad_ms :: "AudioSegment \<Rightarrow> int" where
  "pad_ms song = py_int ((120 - duration_seconds song) * 1000)"

definition padded :: "ratecv \<Rightarrow> AudioSegment \<Rightarrow> error + AudioSegment" where
  "padded rc song =
     (if duration_seconds song < 101 then append rc song (silent (pad_ms song)) else Inr song)"

definition first_100_second :: "ratecv \<Rightarrow> AudioSegment \<Rightarrow> error + AudioSegment" where
  "first_100_second rc song =
     (case padded rc song of
        Inl e \<Rightarrow> Inl e
      | Inr audio \<Rightarrow>
          (case slice_to (100 * 1000) audio of
             Inl e \<Rightarrow> Inl e
           | Inr w \<Rightarrow> set_channels 1 w))"

definition analyze_tone :: "ratecv \<Rightarrow> AudioSegment \<Rightarrow> error + real" where
  "analyze_tone rc song =
     (case first_100_second rc song of
        Inl e \<Rightarrow> Inl e
      | Inr mono_audio \<Rightarrow> find_tuning (frame_rate song) (fft_normed (samples mono_audio)))"

subsection \<open>The pitch-ratio resampler\<close>

text \<open>
  \<^verbatim>\<open>speed_change\<close>: the same samples under the frame rate
  \<^verbatim>\<open>int(sound.frame_rate * speed)\<close>, then \<^verbatim>\<open>set_frame_rate(target_sample_rate)\<close>.
\<close>

definition sound_with_altered_frame_rate :: "AudioSegment \<Rightarrow> real \<Rightarrow> AudioSegment" where
  "sound_with_altered_frame_rate sound speed =
     sound\<lparr>frame_rate := py_int (of_int (frame_rate sound) * speed)\<rparr>"

definition speed_change :: "ratecv \<Rightarrow> AudioSegment \<Rightarrow> real \<Rightarrow> int \<Rightarrow> error + AudioSegment" where
  "speed_change rc sound speed target_sample_rate =
     set_frame_rate rc target_sample_rate (sound_with_altered_frame_rate sound speed)"

subsection \<open>Paths\<close>

text \<open>
  \<^verbatim>\<open>os.path.split\<close>, \<^verbatim>\<open>os.path.splitext\<close> and \<^verbatim>\<open>os.path.join\<close> as
  \<^verbatim>\<open>posixpath\<close> defines them: the head of a split loses its trailing slashes unless
  it consists of slashes only; an extension starts at the last dot of the last component,
  unless only dots precede it there; a second component that starts with a slash
  replaces the first.
\<close>

definition rstrip_sep :: "string \<Rightarrow> string" where
  "rstrip_sep s = rev (dropWhile (\<lambda>c. c = CHR ''/'') (rev s))"

definition path_split :: "string \<Rightarrow> string \<times> string" where
  "path_split p =
     (let tail = rev (takeWhile (\<lambda>c. c \<noteq> CHR ''/'') (rev p));
          head = take (length p - length tail) p
      in (if head \<noteq> [] \<and> (\<exists>c\<in>set head. c \<noteq> CHR ''/'') then rstrip_sep head else head, tail))"

definition dirname :: "string \<Rightarrow> string" where
  "dirname p = fst (path_split p)"

definition basename :: "string \<Rightarrow> string" where
  "basename p = snd (path_split p)"

definition splitext :: "string \<Rightarrow> string \<times> string" where
  "splitext p =
     (let tail = rev (takeWhile (\<lambda>c. c \<noteq> CHR ''/'') (rev p));
          pre = take (length p - length tail) p;
          ext = rev (takeWhile (\<lambda>c. c \<noteq> CHR ''.'') (rev tail))
      in if length ext < length tail
            \<and> (\<exists>c\<in>set (take (length tail - length ext - 1) tail). c \<noteq> CHR ''.'')
         then (pre @ take (length tail - length ext - 1) tail, CHR ''.'' # ext)
         else (p, []))"

definition join :: "string \<Rightarrow> string \<Rightarrow> string" where
  "join a b =
     (if prefix ''/'' b then b
      else if a = [] \<or> suffix ''/'' a then a @ b
      else a @ ''/'' @ b)"

text \<open>\<^verbatim>\<open>args.input.split(',')\<close>.\<close>

fun split_commas :: "string \<Rightarrow> string list" where
  "split_commas [] = [[]]"
| "split_commas (c # s) =
     (if c = CHR '','' then [] # split_commas s
      else (case split_commas s of [] \<Rightarrow> [[c]] | x # xs \<Rightarrow> (c # x) # xs))"

subsection \<open>The file system and the output\<close>

text \<open>
  The world the scripts act on: the regular files by path with their content, the
  directories by path, and what has been printed. The content of a file is a list of
  bytes. Paths are compared as strings. The messages of the two scripts differ in
  wording; an event stands for each kind of line (\<^verbatim>\<open>converter.py\<close> prints neither
  the progress line after a file nor the line that ends a batch).
\<close>

type_synonym content = "nat list"

datatype event =
    Unsupported string
  | SkipExisting string
  | Converting string
  | Detected real
  | Saved string
  | Failed string error
  | Found nat string
  | FileOf nat nat string
  | Progress nat nat
  | BatchComplete
  | Invalid string

record world =
  files :: "(string \<times> content) list"
  dirs :: "string list"
  out :: "event list"

definition print :: "event \<Rightarrow> world \<Rightarrow> world" where
  "print e w = w\<lparr>out := out w @ [e]\<rparr>"

definition isfile :: "world \<Rightarrow> string \<Rightarrow> bool" where
  "isfile w p = (p \<in> fst ` set (files w))"

definition isdir :: "world \<Rightarrow> string \<Rightarrow> bool" where
  "isdir w p = (p \<in> set (dirs w))"

definition exists :: "world \<Rightarrow> string \<Rightarrow> bool" where
  "exists w p = (isfile w p \<or> isdir w p)"

definition child :: "string \<Rightarrow> string \<Rightarrow> string option" where
  "child d p =
     (let pre = (if d = [] \<or> suffix ''/'' d then d else d @ ''/'')
      in if prefix pre p \<and> length pre < length p \<and> CHR ''/'' \<notin> set (drop (length pre) p)
         then Some (drop (length pre) p) else None)"

definition listdir :: "world \<Rightarrow> string \<Rightarrow> string list" where
  "listdir w d = List.map_filter (child d) (map fst (files w) @ dirs w)"

definition write_file :: "string \<Rightarrow> content \<Rightarrow> world \<Rightarrow> world" where
  "write_file p c w = w\<lparr>files := (p, c) # filter (\<lambda>x. fst x \<noteq> p) (files w)\<rparr>"

definition os_remove :: "string \<Rightarrow> world \<Rightarrow> (error + unit) \<times> world" where
  "os_remove p w =
     (if isfile w p then (Inr (), w\<lparr>files := filter (\<lambda>x. fst x \<noteq> p) (files w)\<rparr>)
      else (Inl OSError, w))"

definition os_rmdir :: "string \<Rightarrow> world \<Rightarrow> (error + unit) \<times> world" where
  "os_rmdir d w =
     (if isdir w d \<and> listdir w d = [] then (Inr (), w\<lparr>dirs := filter (\<lambda>x. x \<noteq> d) (dirs w)\<rparr>)
      else (Inl OSError, w))"

definition makedirs_exist_ok :: "string \<Rightarrow> world \<Rightarrow> (error + unit) \<times> world" where
  "makedirs_exist_ok d w =
     (if isdir w d then (Inr (), w)
      else if isfile w d then (Inl OSError, w)
      else (Inr (), w\<lparr>dirs := d # dirs w\<rparr>))"

subsection \<open>The collaborators\<close>

text \<open>
  Decoding, encoding and downloading are done by ffmpeg and yt-dlp. They are parameters:
  the rate converter, the decoder of a file's content, the encoder of a buffer for a
  format and bitrate, and the downloader, which leaves files in the output folder and may
  raise.

  \<^verbatim>\<open>export\<close> of pydub opens the output path for writing before it encodes, so a
  failed encoding leaves an empty file behind.
\<close>

record collaborators =
  ratecv_of :: ratecv
  from_file :: "content \<Rightarrow> error + AudioSegment"
  encode :: "AudioSegment \<Rightarrow> string \<Rightarrow> string \<Rightarrow> error + content"
  ydl_download :: "string list \<Rightarrow> (string \<times> content) list \<times> error option"

definition read_audio :: "collaborators \<Rightarrow> world \<Rightarrow> string \<Rightarrow> error + AudioSegment" where
  "read_audio k w input_file =
     (case map_of (files w) input_file of
        None \<Rightarrow> Inl OSError
      | Some c \<Rightarrow> from_file k c)"

definition export :: "collaborators \<Rightarrow> AudioSegment \<Rightarrow> string \<Rightarrow> string \<Rightarrow> string \<Rightarrow> world
    \<Rightarrow> (error + unit) \<times> world" where
  "export k seg out_f fmt bitrate w =
     (if isdir w out_f \<or> \<not> (dirname out_f = [] \<or> isdir w (dirname out_f)) then (Inl OSError, w)
      else
        let w1 = write_file out_f [] w
        in case encode k seg fmt bitrate of
             Inl e \<Rightarrow> (Inl e, w1)
           | Inr c \<Rightarrow> (Inr (), write_file out_f c w1))"

subsection \<open>The conversion of one file\<close>

text \<open>
  The output path: \<^verbatim>\<open>432hz_\<close>, the stem of the input name and the target format,
  in the output folder or, when none is given, in the folder of the input.
\<close>

definition output_path :: "string \<Rightarrow> string option \<Rightarrow> string \<Rightarrow> string" where
  "output_path input_file output_folder target_format =
     (let folder = dirname input_file;
          filename = basename input_file;
          output_folder' = (case output_folder of
                              None \<Rightarrow> folder
                            | Some d \<Rightarrow> if d = [] then folder else d);
          new_filename = ''432hz_'' @ fst (splitext filename) @ ''.'' @ target_format
      in join output_folder' new_filename)"

text \<open>
  The body of the \<^verbatim>\<open>try\<close> block of \<^verbatim>\<open>convert_to_432hz\<close>. An exception of a
  step leaves the body with the world as it is at that point. The division
  \<^verbatim>\<open>TARGET_FREQUENCY / tone\<close> raises for the tone 0.
\<close>

definition convert_body :: "collaborators \<Rightarrow> string \<Rightarrow> string option \<Rightarrow> string \<Rightarrow> string \<Rightarrow> int
    \<Rightarrow> world \<Rightarrow> (error + unit) \<times> world" where
  "convert_body k input_file output_folder target_format target_bitrate target_sample_rate w =
     (if \<not> endswith (lower input_file) SUPPORTED_FORMATS
      then (Inr (), print (Unsupported input_file) w)
      else
        let output_file = output_path input_file output_folder target_format
        in if exists w output_file then (Inr (), print (SkipExisting output_file) w)
           else
             let w1 = print (Converting input_file) w
             in case read_audio k w1 input_file of
                  Inl e \<Rightarrow> (Inl e, w1)
                | Inr song \<Rightarrow>
                    (case analyze_tone (ratecv_of k) song of
                       Inl e \<Rightarrow> (Inl e, w1)
                     | Inr tone \<Rightarrow>
                         let w2 = print (Detected tone) w1
                         in if tone = 0 then (Inl ZeroDivisionError, w2)
                            else
                              (case speed_change (ratecv_of k) song (TARGET_FREQUENCY / tone)
                                      target_sample_rate of
                                 Inl e \<Rightarrow> (Inl e, w2)
                               | Inr new_song \<Rightarrow>
                                   (case export k new_song output_file target_format target_bitrate w2 of
                                      (Inl e, w3) \<Rightarrow> (Inl e, w3)
                                    | (Inr u, w3) \<Rightarrow> (Inr (), print (Saved output_file) w3)))))"

text \<open>
  \<^verbatim>\<open>convert_to_432hz\<close>: the body under \<^verbatim>\<open>except Exception\<close>, which prints the
  error and returns.
\<close>

definition convert_to_432hz :: "collaborators \<Rightarrow> string \<Rightarrow> string option \<Rightarrow> string \<Rightarrow> string \<Rightarrow> int
    \<Rightarrow> world \<Rightarrow> (error + unit) \<times> world" where
  "convert_to_432hz k input_file output_folder target_format target_bitrate target_sample_rate w =
     (case convert_body k input_file output_folder target_format target_bitrate target_sample_rate w of
        (Inl e, w') \<Rightarrow> (Inr (), print (Failed input_file e) w')
      | (Inr u, w') \<Rightarrow> (Inr (), w'))"

fun convert_each :: "collaborators \<Rightarrow> string option \<Rightarrow> string \<Rightarrow> string \<Rightarrow> int \<Rightarrow> string list
    \<Rightarrow> world \<Rightarrow> (error + unit) \<times> world" where
  "convert_each k output_folder fmt bitrate rate [] w = (Inr (), w)"
| "convert_each k output_folder fmt bitrate rate (file # rest) w =
     (case convert_to_432hz k file output_folder fmt bitrate rate w of
        (Inl e, w') \<Rightarrow> (Inl e, w')
      | (Inr u, w') \<Rightarrow> convert_each k output_folder fmt bitrate rate rest w')"

subsection \<open>Batch mode and the entry points\<close>

text \<open>
  The loop of \<^verbatim>\<open>batch_convert_directory\<close> over the selected names, counted from 1.
  An exception of \<^verbatim>\<open>convert_to_432hz\<close> would leave the loop.
\<close>

fun batch_loop :: "collaborators \<Rightarrow> string \<Rightarrow> string option \<Rightarrow> string \<Rightarrow> string \<Rightarrow> int \<Rightarrow> nat
    \<Rightarrow> nat \<Rightarrow> string list \<Rightarrow> world \<Rightarrow> (error + unit) \<times> world" where
  "batch_loop k directory output_folder fmt bitrate rate total_files i [] w = (Inr (), w)"
| "batch_loop k directory output_folder fmt bitrate rate total_files i (filename # rest) w =
     (case convert_to_432hz k (join directory filename) output_folder fmt bitrate rate
             (print (FileOf i total_files filename) w) of
        (Inl e, w') \<Rightarrow> (Inl e, w')
      | (Inr u, w') \<Rightarrow>
          batch_loop k directory output_folder fmt bitrate rate total_files (Suc i) rest
            (print (Progress i total_files) w'))"

definition batch_convert_directory :: "collaborators \<Rightarrow> string \<Rightarrow> string option \<Rightarrow> string \<Rightarrow> string
    \<Rightarrow> int \<Rightarrow> world \<Rightarrow> (error + unit) \<times> world" where
  "batch_convert_directory k directory output_folder fmt bitrate rate w =
     (if \<not> isdir w directory then (Inl OSError, w)
      else
        let files_to_convert' = files_to_convert (listdir w directory);
            total_files = length files_to_convert'
        in case batch_loop k directory output_folder fmt bitrate rate total_files 1 files_to_convert'
                  (print (Found total_files directory) w) of
             (Inl e, w') \<Rightarrow> (Inl e, w')
           | (Inr u, w') \<Rightarrow> (Inr (), print BatchComplete w'))"

text \<open>
  \<^verbatim>\<open>download_youtube_audio\<close> (\<^verbatim>\<open>download_platform_audio\<close> in
  \<^verbatim>\<open>converter.py\<close>): the downloader writes into the folder, and the function
  returns the paths of the names in the folder that end in \<^verbatim>\<open>.mp3\<close>.
\<close>

definition download_youtube_audio :: "collaborators \<Rightarrow> string list \<Rightarrow> string \<Rightarrow> world
    \<Rightarrow> (error + string list) \<times> world" where
  "download_youtube_audio k video_urls output_folder w =
     (case ydl_download k video_urls of
        (written, err) \<Rightarrow>
          let w1 = fold (\<lambda>(name, c). write_file (join output_folder name) c) written w
          in case err of
               Some e \<Rightarrow> (Inl e, w1)
             | None \<Rightarrow>
                 (Inr (map (join output_folder)
                        (filter (\<lambda>f. suffix ''.mp3'' f) (listdir w1 output_folder))), w1))"

fun remove_each :: "string list \<Rightarrow> world \<Rightarrow> (error + unit) \<times> world" where
  "remove_each [] w = (Inr (), w)"
| "remove_each (file # rest) w =
     (case os_remove file w of
        (Inl e, w') \<Rightarrow> (Inl e, w')
      | (Inr u, w') \<Rightarrow> remove_each rest w')"

text \<open>The parsed command line.\<close>

record args =
  args_input :: string
  args_output :: "string option"
  args_format :: string
  args_bitrate :: string
  args_sample_rate :: int
  args_youtube :: bool

definition main_local :: "collaborators \<Rightarrow> args \<Rightarrow> world \<Rightarrow> (error + unit) \<times> world" where
  "main_local k a w =
     (if isfile w (args_input a) then
        convert_to_432hz k (args_input a) (args_output a) (args_format a) (args_bitrate a)
          (args_sample_rate a) w
      else if isdir w (args_input a) then
        batch_convert_directory k (args_input a) (args_output a) (args_format a) (args_bitrate a)
          (args_sample_rate a) w
      else (Inr (), print (Invalid (args_input a)) w))"

text \<open>
  \<^verbatim>\<open>main\<close> of \<^verbatim>\<open>commandconverter432.py\<close>: in URL mode the downloaded files are
  converted, then removed, then the folder is removed, one statement after the other.
\<close>

definition main_commandconverter432 :: "collaborators \<Rightarrow> args \<Rightarrow> world \<Rightarrow> (error + unit) \<times> world" where
  "main_commandconverter432 k a w =
     (if args_youtube a then
        let video_urls = split_commas (args_input a);
            temp_folder = ''temp_youtube_audio''
        in case makedirs_exist_ok temp_folder w of
             (Inl e, w0) \<Rightarrow> (Inl e, w0)
           | (Inr u, w0) \<Rightarrow>
               (case download_youtube_audio k video_urls temp_folder w0 of
                  (Inl e, w1) \<Rightarrow> (Inl e, w1)
                | (Inr downloaded_files, w1) \<Rightarrow>
                    (case convert_each k (args_output a) (args_format a) (args_bitrate a)
                            (args_sample_rate a) downloaded_files w1 of
                       (Inl e, w2) \<Rightarrow> (Inl e, w2)
                     | (Inr u, w2) \<Rightarrow>
                         (case remove_each downloaded_files w2 of
                            (Inl e, w3) \<Rightarrow> (Inl e, w3)
                          | (Inr u, w3) \<Rightarrow> os_rmdir temp_folder w3)))
      else main_local k a w)"

text \<open>
  \<^verbatim>\<open>main\<close> of \<^verbatim>\<open>converter.py\<close>: in URL mode the download and the conversions
  run in a \<^verbatim>\<open>try\<close> block whose \<^verbatim>\<open>finally\<close> removes every entry of the
  folder and the folder itself; an exception of the block is raised again after the
  cleanup, an exception of the cleanup replaces it.
\<close>

definition cleanup :: "string \<Rightarrow> world \<Rightarrow> (error + unit) \<times> world" where
  "cleanup temp_dir w =
     (case remove_each (map (join temp_dir) (listdir w temp_dir)) w of
        (Inl e, w') \<Rightarrow> (Inl e, w')
      | (Inr u, w') \<Rightarrow> os_rmdir temp_dir w')"

definition main_converter :: "collaborators \<Rightarrow> args \<Rightarrow> world \<Rightarrow> (error + unit) \<times> world" where
  "main_converter k a w =
     (if args_youtube a then
        let temp_dir = ''temp_audio_downloads''
        in case makedirs_exist_ok temp_dir w of
             (Inl e, w0) \<Rightarrow> (Inl e, w0)
           | (Inr u, w0) \<Rightarrow>
               (let tried =
                      (case download_youtube_audio k (split_commas (args_input a)) temp_dir w0 of
                         (Inl e, w1) \<Rightarrow> (Inl e, w1)
                       | (Inr downloaded, w1) \<Rightarrow>
                           convert_each k (args_output a) (args_format a) (args_bitrate a)
                             (args_sample_rate a) downloaded w1)
                in case cleanup temp_dir (snd tried) of
                     (Inl e, w3) \<Rightarrow> (Inl e, w3)
                   | (Inr u, w3) \<Rightarrow> (fst tried, w3))
      else main_local k a w)"

text \<open>
  Two readings of the output: the names that batch mode announced, and the number of
  conversions reported as saved.
\<close>

fun attempted :: "event list \<Rightarrow> string list" where
  "attempted [] = []"
| "attempted (FileOf i n filename # es) = filename # attempted es"
| "attempted (e # es) = attempted es"

fun conversions :: "event list \<Rightarrow> nat" where
  "conversions [] = 0"
| "conversions (Saved output_file # es) = Suc (conversions es)"
| "conversions (e # es) = conversions es"

subsection \<open>Example inputs\<close>

text \<open>
  A sample-and-hold rate converter to stand for \<^verbatim>\<open>audioop.ratecv\<close> where an
  example needs a value for the parameter, and decoded buffers: one second of digital silence,
  one second of silence that starts with a click, 101 seconds of silence at the telephone
  rate of 8000 Hz, eighty seconds and six frames of silence, and one second of stereo
  silence at 44100 Hz.
\<close>

definition hold_ratecv :: ratecv where
  "hold_ratecv w c r r' xs =
     concat (map (\<lambda>j. frames c xs ! nat (int j * r div r'))
                 [0..<nat (int (length xs div c) * r' div r)])"

definition silence1 :: AudioSegment where
  "silence1 = \<lparr>frame_rate = 11025, channels = 1, sample_width = 2, samples = replicate 11025 0\<rparr>"

definition click :: AudioSegment where
  "click = \<lparr>frame_rate = 11025, channels = 1, sample_width = 2, samples = 1 # replicate 11024 0\<rparr>"

definition telephone_silence :: AudioSegment where
  "telephone_silence = \<lparr>frame_rate = 8000, channels = 1, sample_width = 2, samples = replicate 808000 0\<rparr>"

definition song80 :: AudioSegment where
  "song80 = \<lparr>frame_rate = 11025, channels = 1, sample_width = 2, samples = replicate 882006 0\<rparr>"

definition second44k :: AudioSegment where
  "second44k = \<lparr>frame_rate = 44100, channels = 2, sample_width = 2, samples = replicate 88200 0\<rparr>"

text \<open>
  Collaborators for the examples: a decoder that fails on the content \<open>[0]\<close> and
  returns the click otherwise, an encoder that always succeeds, a downloader that leaves
  one file; and the same with a downloader that raises. A folder of music, an empty file
  system, and the arguments of a run in URL mode without an output folder.
\<close>

definition demo :: collaborators where
  "demo = \<lparr>ratecv_of = hold_ratecv,
           from_file = (\<lambda>c. if c = [0] then Inl CouldntDecodeError else Inr click),
           encode = (\<lambda>seg fmt bitrate. Inr [2]),
           ydl_download = (\<lambda>urls. ([(''Title.mp3'', [4])], None))\<rparr>"

definition demo_offline :: collaborators where
  "demo_offline = demo\<lparr>ydl_download := (\<lambda>urls. ([], Some DownloadError))\<rparr>"

definition music :: world where
  "music = \<lparr>files = [(''music/a.mp3'', [0]), (''music/b.mp3'', [4]), (''music/notes.txt'', [3])],
            dirs = [''music''], out = []\<rparr>"

definition empty_world :: world where
  "empty_world = \<lparr>files = [], dirs = [], out = []\<rparr>"

definition url_args :: args where
  "url_args = \<lparr>args_input = ''https://youtu.be/x'', args_output = None, args_format = ''mp3'',
               args_bitrate = ''192k'', args_sample_rate = 48000, args_youtube = True\<rparr>"

section \<open>Properties\<close>

subsection \<open>Rounding\<close>

lemma arange_len_grid: "arange_len 424 (4481 / 10) (1 / 10) = 242"
  by code_simp

lemma length_candidates: "length candidates = 242"
  by (simp add: candidates_def np_arange_def arange_len_grid)

lemma candidates_nth: "i < 242 \<Longrightarrow> candidates ! i = 424 + of_nat i / 10"
  by (simp add: candidates_def np_arange_def arange_len_grid)

lemma candidates_eq: "candidates = map (\<lambda>i. 424 + of_nat i / 10) [0..<242]"
  by (simp add: candidates_def np_arange_def arange_len_grid)

lemma distinct_candidates: "distinct candidates"
  unfolding candidates_eq by (simp add: distinct_map inj_on_def)

lemma dom_tones: "dom tones = set candidates"
  by (force simp: tones_def dom_map_of_conv_image_fst)

lemma tones_candidate: "c \<in> set candidates \<Longrightarrow> tones c = Some (ladder c)"
  unfolding tones_def by (rule map_of_is_SomeI) (auto simp: distinct_candidates comp_def distinct_map inj_on_def)

lemma length_tone_freq: "length tone_freq = 108"
  by (simp add: tone_freq_def)

subsection \<open>Strings\<close>

lemma lower_append: "lower (s @ t) = lower s @ lower t"
  by (simp add: lower_def)

lemma length_lower: "length (lower s) = length s"
  by (simp add: lower_def)

lemma endswith_lower_iff:
  "endswith (lower f) sufs \<longleftrightarrow> (\<exists>stem ext. f = stem @ ext \<and> lower ext \<in> set sufs)"
proof
  assume "endswith (lower f) sufs"
  then obtain x where x: "x \<in> set sufs" "suffix x (lower f)"
    by (auto simp: endswith_def list_ex_iff)
  then obtain s where s: "lower f = s @ x"
    by (auto simp: suffix_def)
  let ?k = "length f - length x"
  have len: "length s = ?k"
    using arg_cong [OF s, of length] by (simp add: length_lower)
  have "lower (drop ?k f) = drop ?k (lower f)"
    by (simp add: lower_def drop_map)
  also have "\<dots> = x"
    using s len by simp
  finally have "lower (drop ?k f) \<in> set sufs"
    using x by simp
  moreover have "f = take ?k f @ drop ?k f"
    by simp
  ultimately show "\<exists>stem ext. f = stem @ ext \<and> lower ext \<in> set sufs"
    by blast
next
  assume "\<exists>stem ext. f = stem @ ext \<and> lower ext \<in> set sufs"
  then obtain stem ext where "f = stem @ ext" "lower ext \<in> set sufs"
    by blast
  then have "lower ext \<in> set sufs \<and> suffix (lower ext) (lower f)"
    by (simp add: lower_append suffix_def)
  then show "endswith (lower f) sufs"
    unfolding endswith_def list_ex_iff by blast
qed

subsection \<open>Rounding and bounds\<close>

lemma tone_freq_bounds: "\<forall>t\<in>set tone_freq. 0 < t \<and> t \<le> 790213 / 100"
  by (simp add: tone_freq_def)

lemma candidates_bounds: "c \<in> set candidates \<Longrightarrow> 424 \<le> c \<and> c \<le> 4481 / 10"
  by (auto simp: candidates_eq)

lemma rint_bounds: "x - 1 / 2 \<le> of_int (rint x) \<and> of_int (rint x) \<le> x + 1 / 2"
  unfolding rint_def Let_def by (auto; linarith)

lemma rint_nonneg: "0 \<le> x \<Longrightarrow> 0 \<le> rint x"
  unfolding rint_def Let_def by auto

lemma np_index_cases:
  "np_index xs i =
     (if - int (length xs) \<le> i \<and> i < int (length xs)
      then Inr (xs ! nat (if i < 0 then i + int (length xs) else i)) else Inl IndexError)"
  by (auto simp: np_index_def Let_def)

lemma np_take_cases:
  "np_take xs is =
     (if \<forall>i\<in>set is. - int (length xs) \<le> i \<and> i < int (length xs)
      then Inr (map (\<lambda>i. xs ! nat (if i < 0 then i + int (length xs) else i)) is)
      else Inl IndexError)"
  by (induction "is") (auto simp: np_index_cases)

lemma score_cases:
  "score freqstep spec tone =
     (if \<forall>t\<in>set tone. - int (length spec) \<le> rint (t / freqstep) \<and> rint (t / freqstep) < int (length spec)
      then Inr (\<Sum>t\<leftarrow>tone. spec ! nat (if rint (t / freqstep) < 0 then rint (t / freqstep) + int (length spec)
                                          else rint (t / freqstep)))
      else Inl IndexError)"
  by (auto simp: score_def np_take_cases comp_def)

lemma ladder_bounds:
  assumes "c \<in> set candidates" "t \<in> set (ladder c)"
  shows "0 < t \<and> t < 8048"
proof -
  from assms(2) obtain t0 where t0: "t0 \<in> set tone_freq" "t = t0 * c / 440"
    by (auto simp: ladder_def)
  from tone_freq_bounds t0(1) have b: "0 < t0" "t0 \<le> 790213 / 100" by auto
  from candidates_bounds [OF assms(1)] have c: "424 \<le> c" "c \<le> 4481 / 10" by auto
  have "t0 * c \<le> (790213 / 100) * (4481 / 10)"
    using b c by (intro mult_mono) auto
  moreover have "0 < t0 * c" using b c by simp
  ultimately show ?thesis unfolding t0(2) by simp
qed

lemma rint_less:
  assumes "x + 1 / 2 < of_int n"
  shows "rint x < n"
proof -
  from rint_bounds [of x] have "of_int (rint x) \<le> x + 1 / 2" by simp
  with assms have "(of_int (rint x) :: real) < of_int n" by linarith
  then show ?thesis by simp
qed

lemma sorted_candidates: "sorted_wrt (<) candidates"
  unfolding candidates_eq sorted_wrt_map
  by (rule sorted_wrt_mono_rel [OF _ sorted_wrt_upt]) simp

lemma candidate_424: "424 \<in> set candidates"
proof -
  have "candidates ! 0 \<in> set candidates"
    by (rule nth_mem) (simp add: length_candidates)
  then show ?thesis by (simp add: candidates_nth)
qed

lemma top_note_448: "790213 / 100 * 448 / 440 \<in> set (ladder 448)"
  by (simp add: ladder_def tone_freq_def)

lemma candidate_448: "448 \<in> set candidates"
proof -
  have "candidates ! 240 \<in> set candidates"
    by (rule nth_mem) (simp add: length_candidates)
  then show ?thesis by (simp add: candidates_nth)
qed

subsection \<open>The rounding model\<close>

text \<open>
  \<open>fl\<close> rounds to a multiple of the spacing of its binade with an error of at most half
  the spacing; the literals of the grid and the quotient that decides its length round to
  the binary64 numbers below (those that Python prints for
  \<^verbatim>\<open>(448.1).as_integer_ratio()\<close> and so on).
\<close>

lemma fl_literals:
  "fl (4481 / 10) = 3941529283251405 / 8796093022208"
  "fl (1 / 10) = 3602879701896397 / 36028797018963968"
  "fl 424 = 424"
  "fl (fl (4481 / 10) - fl 424) = 211985841835213 / 8796093022208"
  "fl (fl (fl (4481 / 10) - fl 424) / fl (1 / 10)) = 1059929209176065 / 4398046511104"
  by code_simp+

lemma exponent_bounds:
  assumes "0 < x"
  shows "power_int 2 (exponent x) \<le> x \<and> x < power_int 2 (exponent x + 1)"
proof (cases "1 \<le> x")
  case True
  let ?n = "nat \<lfloor>x\<rfloor>"
  have n: "0 < ?n" using True by simp
  from floorlog_bounds [OF n, of 2]
  have b: "2 ^ (floorlog 2 ?n - 1) \<le> ?n" "?n < 2 ^ floorlog 2 ?n" by simp_all
  have k: "0 < floorlog 2 ?n" using n by (simp add: floorlog_def)
  have e: "exponent x = int (floorlog 2 ?n - 1)"
    using True k by (simp add: exponent_def of_nat_diff)
  have "(2::real) ^ (floorlog 2 ?n - 1) \<le> of_nat ?n"
    using b(1) by (metis of_nat_le_iff of_nat_numeral of_nat_power)
  also have "\<dots> \<le> x" using True by simp
  finally have lo: "(2::real) ^ (floorlog 2 ?n - 1) \<le> x" .
  have "Suc ?n \<le> 2 ^ floorlog 2 ?n" using b(2) by (rule Suc_leI)
  then have "(of_nat (Suc ?n) :: real) \<le> 2 ^ floorlog 2 ?n"
    by (metis of_nat_le_iff of_nat_numeral of_nat_power)
  moreover have "x < of_nat (Suc ?n)" using True by simp linarith
  ultimately have hi: "x < 2 ^ floorlog 2 ?n" by linarith
  have e1: "exponent x + 1 = int (floorlog 2 ?n)" using e k by simp
  have "power_int (2::real) (exponent x) = 2 ^ (floorlog 2 ?n - 1)"
    unfolding e by (rule power_int_of_nat)
  moreover have "power_int (2::real) (exponent x + 1) = 2 ^ floorlog 2 ?n"
    unfolding e1 by (rule power_int_of_nat)
  ultimately show ?thesis using lo hi by simp
next
  case False
  with assms have x: "0 < x" "x < 1" by simp_all
  let ?c = "nat \<lceil>1 / x\<rceil>"
  let ?m = "?c - 1"
  let ?k = "floorlog 2 ?m"
  have inv: "1 < 1 / x" using x by simp
  then have c2: "2 \<le> \<lceil>1 / x\<rceil>" by linarith
  then have m: "0 < ?m" by simp
  from floorlog_bounds [OF m, of 2]
  have b: "2 ^ (?k - 1) \<le> ?m" "?m < 2 ^ ?k" by simp_all
  have k: "0 < ?k" using m by (simp add: floorlog_def)
  have e: "exponent x = - int ?k" using False by (simp add: exponent_def)
  have cpos: "0 < ?c" using c2 by linarith
  have sm: "Suc ?m = ?c" using cpos by linarith
  have "Suc ?m \<le> 2 ^ ?k" using b(2) by (rule Suc_leI)
  then have "?c \<le> 2 ^ ?k" unfolding sm .
  then have "(of_nat ?c :: real) \<le> 2 ^ ?k"
    by (metis of_nat_le_iff of_nat_numeral of_nat_power)
  moreover have "1 / x \<le> of_nat ?c" using c2 by (simp add: of_nat_nat)
  ultimately have "1 / x \<le> 2 ^ ?k" by linarith
  then have lo: "1 / 2 ^ ?k \<le> x"
    using x by (simp add: field_simps)
  have "(2::real) ^ (?k - 1) \<le> of_nat ?m"
    using b(1) by (metis of_nat_le_iff of_nat_numeral of_nat_power)
  moreover have "of_nat ?m < 1 / x"
  proof -
    have "(of_nat ?c :: real) = of_int \<lceil>1 / x\<rceil>" using c2 by (simp add: of_nat_nat)
    moreover have "(of_nat (Suc ?m) :: real) = of_nat ?c" by (simp only: sm)
    ultimately have "(of_nat ?m :: real) = of_int \<lceil>1 / x\<rceil> - 1" by simp
    then show ?thesis by linarith
  qed
  ultimately have "(2::real) ^ (?k - 1) < 1 / x" by linarith
  then have hi: "x < 1 / 2 ^ (?k - 1)"
    using x by (simp add: field_simps)
  have e1: "exponent x + 1 = - int (?k - 1)" using e k by (simp add: of_nat_diff)
  have pm: "power_int (2::real) (- int n) = 1 / 2 ^ n" for n
    by (simp add: power_int_minus field_simps)
  have "power_int (2::real) (exponent x) = 1 / 2 ^ ?k"
    unfolding e by (rule pm)
  moreover have "power_int (2::real) (exponent x + 1) = 1 / 2 ^ (?k - 1)"
    unfolding e1 by (rule pm)
  ultimately show ?thesis using lo hi by simp
qed

lemma ulp_pos: "0 < ulp x"
  by (simp add: ulp_def power_int_def)

lemma fl_nearest:
  assumes "0 < x"
  shows "\<bar>fl x - x\<bar> \<le> ulp x / 2 \<and> (\<exists>k::int. fl x = of_int k * ulp x)"
proof -
  let ?u = "ulp x"
  have u: "0 < ?u" by (rule ulp_pos)
  have f: "fl x = of_int (rint (x / ?u)) * ?u"
    using assms by (simp add: fl_def)
  from rint_bounds [of "x / ?u"]
  have "\<bar>of_int (rint (x / ?u)) - x / ?u\<bar> \<le> 1 / 2" by linarith
  then have "\<bar>of_int (rint (x / ?u)) - x / ?u\<bar> * ?u \<le> 1 / 2 * ?u"
    using u by (intro mult_right_mono) simp_all
  moreover have "\<bar>of_int (rint (x / ?u)) - x / ?u\<bar> * ?u = \<bar>fl x - x\<bar>"
  proof -
    have "\<bar>of_int (rint (x / ?u)) - x / ?u\<bar> * ?u = \<bar>(of_int (rint (x / ?u)) - x / ?u) * ?u\<bar>"
      using u by (simp add: abs_mult)
    also have "(of_int (rint (x / ?u)) - x / ?u) * ?u = fl x - x"
      using u by (simp add: f field_simps)
    finally show ?thesis .
  qed
  ultimately have "\<bar>fl x - x\<bar> \<le> ?u / 2" by simp
  with f show ?thesis by blast
qed

subsection \<open>The transform of silence and of a click\<close>

lemma dft_zero: "set xs \<subseteq> {0} \<Longrightarrow> dft xs k = 0"
  unfolding dft_def
  by (rule sum.neutral) (auto simp: subset_iff dest: nth_mem)

lemma fft_normed_zero: "set xs \<subseteq> {0} \<Longrightarrow> fft_normed xs = replicate (length xs) 0"
  by (simp add: fft_normed_def dft_zero map_replicate_const)

lemma length_fft_normed: "length (fft_normed xs) = length xs"
  by (simp add: fft_normed_def)

lemma dft_impulse: "dft (x # replicate n 0) k = of_int x"
proof -
  have "dft (x # replicate n 0) k
          = (\<Sum>j<Suc n. of_int ((x # replicate n 0) ! j) * cis (- 2 * pi * of_nat k * of_nat j / of_nat (Suc n)))"
    by (simp add: dft_def)
  also have "\<dots> = (\<Sum>j<Suc n. if j = 0 then of_int x else 0)"
    by (intro sum.cong refl) (auto simp: nth_Cons split: nat.splits)
  also have "\<dots> = of_int x"
    by (simp add: sum.lessThan_Suc_shift)
  finally show ?thesis .
qed

lemma fft_normed_impulse:
  "fft_normed (1 # replicate n 0) = replicate (Suc n) (1 / of_nat (Suc n))"
  unfolding fft_normed_def by (simp only: dft_impulse) (simp add: map_replicate_const)

subsection \<open>The scan\<close>

lemma scan_Inr:
  assumes "\<forall>c\<in>set cs. tones c = Some (ladder c)"
    and "\<forall>c\<in>set cs. score fs spec (ladder c) = Inr (val c)"
  shows "scan fs spec cs (m, f) =
           Inr (fold (\<lambda>c (m, f). if val c > m then (val c, c) else (m, f)) cs (m, f))"
  using assms by (induction cs arbitrary: m f) auto

lemma fold_best:
  fixes val :: "real \<Rightarrow> real"
  assumes "fold (\<lambda>c (m, f). if val c > m then (val c, c) else (m, f)) cs (m, f) = (m', f')"
  shows "m \<le> m' \<and> (\<forall>c\<in>set cs. val c \<le> m') \<and>
         ((m', f') = (m, f) \<or>
          (m < m' \<and> val f' = m' \<and> (\<exists>pre post. cs = pre @ f' # post \<and> (\<forall>c\<in>set pre. val c < m'))))"
  using assms
proof (induction cs arbitrary: m f)
  case Nil
  then show ?case by simp
next
  case (Cons a cs)
  let ?m1 = "if val a > m then val a else m"
  let ?f1 = "if val a > m then a else f"
  from Cons.prems have "fold (\<lambda>c (m, f). if val c > m then (val c, c) else (m, f)) cs (?m1, ?f1) = (m', f')"
    by (simp split: if_splits)
  from Cons.IH [OF this]
  have ih: "?m1 \<le> m'" "\<forall>c\<in>set cs. val c \<le> m'"
    "(m', f') = (?m1, ?f1) \<or>
       (?m1 < m' \<and> val f' = m' \<and> (\<exists>pre post. cs = pre @ f' # post \<and> (\<forall>c\<in>set pre. val c < m')))"
    by blast+
  have a: "val a \<le> ?m1" "m \<le> ?m1" by auto
  from ih(3) show ?case
  proof
    assume eq: "(m', f') = (?m1, ?f1)"
    show ?thesis
    proof (cases "val a > m")
      case True
      with eq have "m' = val a" "f' = a" by auto
      with True ih(2) have "m < m' \<and> val f' = m' \<and> a # cs = [] @ f' # cs \<and> (\<forall>c\<in>set []. val c < m')"
        by simp
      with ih a show ?thesis by (metis (no_types, lifting) order_trans set_ConsD)
    next
      case False
      with eq ih a show ?thesis by auto
    qed
  next
    assume "?m1 < m' \<and> val f' = m' \<and> (\<exists>pre post. cs = pre @ f' # post \<and> (\<forall>c\<in>set pre. val c < m'))"
    then obtain pre post where p: "?m1 < m'" "val f' = m'" "cs = pre @ f' # post" "\<forall>c\<in>set pre. val c < m'"
      by blast
    have "a # cs = (a # pre) @ f' # post \<and> (\<forall>c\<in>set (a # pre). val c < m')"
      using p a by auto
    moreover have "m < m'" using p(1) a by (auto split: if_splits)
    ultimately have "m < m' \<and> val f' = m' \<and> (\<exists>pre post. a # cs = pre @ f' # post \<and> (\<forall>c\<in>set pre. val c < m'))"
      using p(2) by blast
    moreover have "m \<le> m'" using a ih(1) by linarith
    moreover have "\<forall>c\<in>set (a # cs). val c \<le> m'" using a ih by auto
    ultimately show ?thesis by blast
  qed
qed

lemma find_tuning_char:
  assumes sr: "sample_rate \<noteq> 0" and ne: "spec \<noteq> []"
    and inr: "\<forall>c\<in>set candidates. score (of_int sample_rate / of_nat (length spec)) spec (ladder c) = Inr (val c)"
  shows "\<exists>f. find_tuning sample_rate spec = Inr f \<and>
           (if \<forall>c\<in>set candidates. val c \<le> 0 then f = 0
            else f \<in> set candidates \<and>
                 (\<forall>c\<in>set candidates. val c \<le> val f \<and> (c < f \<longrightarrow> val c < val f)))"
proof -
  let ?fs = "of_int sample_rate / of_nat (length spec) :: real"
  let ?step = "\<lambda>c (m, f). if val c > m then (val c, c) else (m, f)"
  obtain m' f' where fold: "fold ?step candidates (0, 0) = (m', f')"
    by (cases "fold ?step candidates (0, 0)") auto
  have "scan ?fs spec candidates (0, 0) = Inr (m', f')"
    using scan_Inr [of candidates ?fs spec val 0 0] inr tones_candidate fold by simp
  then have res: "find_tuning sample_rate spec = Inr f'"
    using sr ne by (simp add: find_tuning_def)
  from fold_best [OF fold]
  have fb: "0 \<le> m'" "\<forall>c\<in>set candidates. val c \<le> m'"
    "(m', f') = (0, 0) \<or>
       (0 < m' \<and> val f' = m' \<and>
        (\<exists>pre post. candidates = pre @ f' # post \<and> (\<forall>c\<in>set pre. val c < m')))"
    by blast+
  show ?thesis
  proof (cases "\<forall>c\<in>set candidates. val c \<le> 0")
    case True
    have "f' = 0"
    proof (rule ccontr)
      assume "f' \<noteq> 0"
      with fb(3) obtain pre post where q: "0 < m'" "val f' = m'" "candidates = pre @ f' # post"
        by auto
      have "f' \<in> set candidates" by (subst q(3)) simp
      with True q(1,2) show False by fastforce
    qed
    with res True show ?thesis by simp
  next
    case False
    then obtain c0 where c0: "c0 \<in> set candidates" "0 < val c0" by fastforce
    with fb(2) have "0 < m'" by fastforce
    with fb(3) obtain pre post where p: "val f' = m'" "candidates = pre @ f' # post"
      "\<forall>c\<in>set pre. val c < m'" by auto
    have mem: "f' \<in> set candidates" by (subst p(2)) simp
    have lower: "val c < val f'" if "c \<in> set candidates" "c < f'" for c
    proof -
      have "sorted_wrt (<) (pre @ f' # post)"
        using sorted_candidates unfolding p(2) .
      then have ge: "\<forall>y\<in>set (f' # post). f' \<le> y"
        by (auto simp: sorted_wrt_append)
      from that(1) have "c \<in> set (pre @ f' # post)"
        unfolding p(2) .
      with ge that(2) have "c \<in> set pre" by auto
      with p show ?thesis by simp
    qed
    from res False mem lower fb(2) p(1) show ?thesis by auto
  qed
qed

lemma score_zero_spectrum:
  assumes "\<forall>t\<in>set tone. 0 \<le> rint (t / fs) \<and> rint (t / fs) < int n"
  shows "score fs (replicate n 0) tone = Inr 0"
proof -
  have "(\<Sum>t\<leftarrow>tone. replicate n (0::real) !
            nat (if rint (t / fs) < 0 then rint (t / fs) + int (length (replicate n (0::real)))
                 else rint (t / fs))) = 0"
    using assms by (induction tone) (auto simp: nat_less_iff)
  moreover have "\<forall>t\<in>set tone. - int (length (replicate n (0::real))) \<le> rint (t / fs)
                   \<and> rint (t / fs) < int (length (replicate n (0::real)))"
    using assms by auto
  ultimately show ?thesis
    unfolding score_cases by simp
qed

lemma bins_in_range_100s:
  assumes "8049 \<le> sr" "c \<in> set candidates" "t \<in> set (ladder c)"
  shows "0 \<le> rint (t / (of_int sr / of_nat (nat (100 * sr)))) \<and>
         rint (t / (of_int sr / of_nat (nat (100 * sr)))) < int (nat (100 * sr))"
proof -
  from ladder_bounds [OF assms(2,3)] have t: "0 < t" "t < 8048" by auto
  have fs: "(of_int sr / of_nat (nat (100 * sr)) :: real) = 1 / 100"
    using assms(1) by simp
  have "t / (1 / 100) + 1 / 2 < of_int (100 * sr)"
    using t assms(1) by simp
  from rint_less [OF this] have "rint (t / (1 / 100)) < 100 * sr" .
  moreover have "0 \<le> rint (t / (1 / 100))"
    using t by (intro rint_nonneg) simp
  ultimately show ?thesis unfolding fs using assms(1) by simp
qed

lemma find_tuning_silence:
  assumes "8049 \<le> sr"
  shows "find_tuning sr (replicate (nat (100 * sr)) 0) = Inr 0"
proof -
  let ?n = "nat (100 * sr)"
  have "\<forall>c\<in>set candidates. score (of_int sr / of_nat (length (replicate ?n (0::real)))) (replicate ?n 0) (ladder c)
           = Inr ((\<lambda>c. 0) c)"
    using bins_in_range_100s [OF assms] by (auto intro!: score_zero_spectrum)
  from find_tuning_char [OF _ _ this] assms show ?thesis
    by auto
qed

lemma score_in_range:
  assumes "0 < fs" and "\<forall>t\<in>set tone. 0 < t \<and> rint (t / fs) < int (length spec)"
  shows "score fs spec tone = Inr (\<Sum>t\<leftarrow>tone. spec ! nat (rint (t / fs)))"
proof -
  have nn: "\<forall>t\<in>set tone. 0 \<le> rint (t / fs)"
    using assms by (auto intro!: rint_nonneg)
  then have "\<forall>t\<in>set tone. - int (length spec) \<le> rint (t / fs) \<and> rint (t / fs) < int (length spec)"
    using assms(2) by fastforce
  moreover have "(\<Sum>t\<leftarrow>tone. spec ! nat (if rint (t / fs) < 0 then rint (t / fs) + int (length spec)
                                          else rint (t / fs)))
                 = (\<Sum>t\<leftarrow>tone. spec ! nat (rint (t / fs)))"
    using nn by (intro arg_cong [where f = sum_list] map_cong refl) auto
  ultimately show ?thesis unfolding score_cases by simp
qed

lemma analyze_tone_char:
  assumes win: "first_100_second rc song = Inr w"
    and rate: "0 < frame_rate song" and ne: "samples w \<noteq> []"
    and inrange: "\<forall>c\<in>set candidates. \<forall>t\<in>set (ladder c).
        rint (t / (of_int (frame_rate song) / of_nat (length (samples w)))) < int (length (samples w))"
  shows "\<exists>f. analyze_tone rc song = Inr f \<and>
     (if \<forall>c\<in>set candidates.
           aggregate (of_int (frame_rate song) / of_nat (length (samples w))) (fft_normed (samples w)) c \<le> 0
      then f = 0
      else f \<in> set candidates \<and>
           (\<forall>c\<in>set candidates.
              aggregate (of_int (frame_rate song) / of_nat (length (samples w))) (fft_normed (samples w)) c
                \<le> aggregate (of_int (frame_rate song) / of_nat (length (samples w))) (fft_normed (samples w)) f
              \<and> (c < f \<longrightarrow>
                   aggregate (of_int (frame_rate song) / of_nat (length (samples w))) (fft_normed (samples w)) c
                     < aggregate (of_int (frame_rate song) / of_nat (length (samples w))) (fft_normed (samples w)) f)))"
proof -
  let ?spec = "fft_normed (samples w)"
  let ?fs = "of_int (frame_rate song) / of_nat (length (samples w)) :: real"
  have fs: "0 < ?fs" using rate ne by simp
  have len: "length ?spec = length (samples w)" by (rule length_fft_normed)
  have "\<forall>c\<in>set candidates. score (of_int (frame_rate song) / of_nat (length ?spec)) ?spec (ladder c)
           = Inr (aggregate ?fs ?spec c)"
    unfolding len aggregate_def
    using inrange ladder_bounds by (intro ballI score_in_range [OF fs]) (auto simp: len)
  from find_tuning_char [OF _ _ this] rate ne
  have "\<exists>f. find_tuning (frame_rate song) ?spec = Inr f \<and>
           (if \<forall>c\<in>set candidates. aggregate ?fs ?spec c \<le> 0 then f = 0
            else f \<in> set candidates \<and>
                 (\<forall>c\<in>set candidates. aggregate ?fs ?spec c \<le> aggregate ?fs ?spec f
                    \<and> (c < f \<longrightarrow> aggregate ?fs ?spec c < aggregate ?fs ?spec f)))"
    by (auto simp: fft_normed_def)
  then show ?thesis by (simp add: analyze_tone_def win)
qed

lemma np_take_IndexError:
  assumes "i \<in> set is" "int (length xs) \<le> i"
  shows "np_take xs is = Inl IndexError"
proof -
  have "\<not> (\<forall>i\<in>set is. - int (length xs) \<le> i \<and> i < int (length xs))"
    using assms by fastforce
  then show ?thesis unfolding np_take_cases by (simp only: if_False)
qed

lemma score_IndexError:
  assumes "t \<in> set tone" "int (length spec) \<le> rint (t / fs)"
  shows "score fs spec tone = Inl IndexError"
proof -
  have "rint (t / fs) \<in> set (map (\<lambda>t. rint (t / fs)) tone)"
    using assms(1) by simp
  from np_take_IndexError [OF this assms(2)] show ?thesis
    by (simp add: score_def)
qed

lemma scan_IndexError:
  assumes "c \<in> set cs" "score fs spec (ladder c) = Inl IndexError"
    and "\<forall>c\<in>set cs. tones c = Some (ladder c)"
  shows "scan fs spec cs b = Inl IndexError"
  using assms
proof (induction cs arbitrary: b)
  case Nil
  then show ?case by simp
next
  case (Cons a cs)
  obtain m f where b: "b = (m, f)" by (cases b)
  have cases: "score fs spec (ladder a) = Inl IndexError \<or> (\<exists>s. score fs spec (ladder a) = Inr s)"
    unfolding score_cases by auto
  show ?case
  proof (cases "score fs spec (ladder a)")
    case (Inl e)
    with cases have "score fs spec (ladder a) = Inl IndexError" by auto
    with Cons.prems(3) show ?thesis by (simp add: b)
  next
    case (Inr s)
    with Cons.prems have "c \<in> set cs" by auto
    from Cons.IH [OF this Cons.prems(2)] Cons.prems(3) Inr show ?thesis
      by (simp add: b)
  qed
qed

lemma find_tuning_IndexError:
  assumes "spec \<noteq> []" "sample_rate \<noteq> 0" "c \<in> set candidates" "t \<in> set (ladder c)"
    and "int (length spec) \<le> rint (t / (of_int sample_rate / of_nat (length spec)))"
  shows "find_tuning sample_rate spec = Inl IndexError"
proof -
  have "score (of_int sample_rate / of_nat (length spec)) spec (ladder c) = Inl IndexError"
    by (rule score_IndexError [OF assms(4,5)])
  from scan_IndexError [OF assms(3) this] tones_candidate assms(1,2) show ?thesis
    by (simp add: find_tuning_def)
qed

lemma aggregate_flat:
  assumes "\<forall>t\<in>set (ladder c). 0 \<le> rint (t / fs) \<and> rint (t / fs) < int n"
  shows "aggregate fs (replicate n v) c = 108 * v"
proof -
  have "(\<Sum>t\<leftarrow>ladder c. replicate n v ! nat (rint (t / fs))) = (\<Sum>t\<leftarrow>ladder c. v)"
    using assms by (intro arg_cong [where f = sum_list] map_cong refl) (auto simp: nat_less_iff)
  also have "\<dots> = of_nat (length (ladder c)) * v"
    by (simp add: sum_list_triv)
  also have "length (ladder c) = 108"
    by (simp add: ladder_def length_tone_freq)
  finally show ?thesis
    by (simp add: aggregate_def)
qed

lemma lowest_of_equals:
  fixes A :: "real \<Rightarrow> real" and a f :: real
  assumes "f \<in> S \<and> (\<forall>c\<in>S. A c \<le> A f \<and> (c < f \<longrightarrow> A c < A f))"
    and "a \<in> S" and "\<forall>c\<in>S. A c = v" and "\<forall>c\<in>S. a \<le> c"
  shows "f = a"
proof (rule ccontr)
  assume "f \<noteq> a"
  with assms(1,4) have "a < f" by fastforce
  with assms(1,2) have "A a < A f" by blast
  with assms(1,2,3) show False by simp
qed

subsection \<open>The examples, evaluated\<close>

lemma padded1: "padded rc silence1 = Inr \<lparr>frame_rate = 11025, channels = 1, sample_width = 2, samples = replicate 1323000 0\<rparr>"
  by (simp add: padded_def pad_ms_def duration_seconds_def silence1_def frame_count_def py_int_def
      silent_def append_def sync1_def set_channels_def set_frame_rate_def set_sample_width_def replicate_add [symmetric])

lemma first1: "first_100_second rc silence1 = Inr \<lparr>frame_rate = 11025, channels = 1, sample_width = 2, samples = replicate 1102500 0\<rparr>"
  by (simp add: first_100_second_def padded1 slice_to_def len_ms_def frame_count_def rint_def py_int_def set_channels_def)

lemma analyze_silence1: "analyze_tone rc silence1 = Inr 0"
proof -
  have "frame_rate silence1 = 11025" by (simp add: silence1_def)
  with find_tuning_silence [of 11025] show ?thesis
    by (simp add: analyze_tone_def first1 fft_normed_zero)
qed

lemma first_click:
  "first_100_second rc click
     = Inr \<lparr>frame_rate = 11025, channels = 1, sample_width = 2, samples = 1 # replicate 1102499 0\<rparr>"
  by (simp add: first_100_second_def padded_def pad_ms_def duration_seconds_def click_def
      frame_count_def py_int_def silent_def append_def sync1_def set_channels_def set_frame_rate_def
      set_sample_width_def replicate_add [symmetric] slice_to_def len_ms_def rint_def)

lemma score_telephone: "score (8000 / 800000) (replicate 800000 0) (ladder 448) = Inl IndexError"
  by (rule score_IndexError [OF top_note_448]) (simp add: rint_def)

lemma first_telephone:
  "first_100_second rc telephone_silence
     = Inr \<lparr>frame_rate = 8000, channels = 1, sample_width = 2, samples = replicate 800000 0\<rparr>"
  by (simp add: first_100_second_def padded_def duration_seconds_def telephone_silence_def
      frame_count_def slice_to_def len_ms_def rint_def py_int_def set_channels_def)

lemma analyze_telephone: "analyze_tone rc telephone_silence = Inl IndexError"
proof -
  have fr: "frame_rate telephone_silence = 8000" by (simp add: telephone_silence_def)
  have "int (length (replicate 800000 (0::real)))
          \<le> rint ((790213 / 100 * 448 / 440) / (of_int 8000 / of_nat (length (replicate 800000 (0::real)))))"
    by (simp add: rint_def)
  from find_tuning_IndexError [OF _ _ candidate_448 top_note_448 this]
  have "find_tuning 8000 (replicate 800000 0) = Inl IndexError" by simp
  then show ?thesis
    by (simp add: analyze_tone_def first_telephone fft_normed_zero fr)
qed

subsection \<open>Padding, window and playback rate\<close>

lemma length_frames: "length (frames c xs) = (if c = 0 then 0 else length xs div c)"
proof (induction c xs rule: frames.induct)
  case (1 c xs)
  show ?case
  proof (cases "c = 0 \<or> length xs < c")
    case True
    then show ?thesis by (auto simp: frames.simps [of c xs])
  next
    case False
    then have "length (frames c (drop c xs)) = (length xs - c) div c"
      using 1 by simp
    with False show ?thesis
      by (simp add: frames.simps [of c xs] le_div_geq)
  qed
qed

lemma set_channels_mono:
  assumes "0 < channels seg"
  shows "\<exists>w. set_channels 1 seg = Inr w \<and> length (samples w) = frame_count seg
             \<and> frame_rate w = frame_rate seg \<and> channels w = 1"
proof (cases "channels seg = 1")
  case True
  then show ?thesis by (simp add: set_channels_def frame_count_def)
next
  case False
  with assms show ?thesis by (auto simp: set_channels_def frame_count_def length_frames)
qed

lemma rint_ge:
  assumes "of_int n \<le> x"
  shows "n \<le> rint x"
proof -
  from rint_bounds [of x] assms have "(of_int n :: real) - 1 / 2 \<le> of_int (rint x)" by linarith
  then have "(of_int n :: real) < of_int (rint x) + 1" by linarith
  then have "n < rint x + 1" by (metis of_int_1 of_int_add of_int_less_iff)
  then show ?thesis by simp
qed

lemma py_int_of_int [simp]: "py_int (of_int k) = k"
  by (simp add: py_int_def)

lemma slice_full:
  assumes "0 < frame_rate seg" "0 < channels seg" "100 * frame_rate seg \<le> int (frame_count seg)"
  shows "slice_to 100000 seg
           = Inr (seg\<lparr>samples := take (nat (100 * frame_rate seg) * channels seg) (samples seg)\<rparr>)"
proof -
  let ?r = "frame_rate seg" and ?c = "channels seg"
  have "of_int 100000 \<le> 1000 * (of_nat (frame_count seg) / of_int ?r :: real)"
  proof -
    have "(of_int (100 * ?r) :: real) \<le> of_int (int (frame_count seg))"
      using assms(3) by (simp only: of_int_le_iff)
    then have "100 * of_int ?r \<le> (of_nat (frame_count seg) :: real)" by simp
    then show ?thesis using assms(1) by (simp add: field_simps)
  qed
  from rint_ge [OF this] have len: "min 100000 (len_ms seg) = 100000"
    by (simp add: len_ms_def)
  have "(of_int 100000 * (of_int ?r / 1000) :: real) = of_int (100 * ?r)" by simp
  then have fr: "nat (py_int (of_int 100000 * (of_int ?r / 1000))) = nat (100 * ?r)"
    by (simp only: py_int_of_int)
  have "nat (100 * ?r) \<le> frame_count seg" using assms(3) by simp
  then have "nat (100 * ?r) * ?c \<le> frame_count seg * ?c" by simp
  also have "\<dots> \<le> length (samples seg)" by (simp add: frame_count_def)
  finally have full: "length (take (nat (100 * ?r) * ?c) (samples seg)) = nat (100 * ?r) * ?c"
    by simp
  show ?thesis
    unfolding slice_to_def len fr Let_def full using assms(1) by simp
qed

lemma set_channels_Inr:
  "set_channels n seg = Inr s \<Longrightarrow> channels s = n \<and> frame_rate s = frame_rate seg"
  by (auto simp: set_channels_def split: if_splits)

lemma set_frame_rate_Inr:
  "set_frame_rate rc r seg = Inr s \<Longrightarrow> frame_rate s = r \<and> channels s = channels seg"
  by (auto simp: set_frame_rate_def split: if_splits)

lemma set_sample_width_same [simp]:
  "frame_rate (set_sample_width w seg) = frame_rate seg"
  "channels (set_sample_width w seg) = channels seg"
  by (simp_all add: set_sample_width_def)

lemma sync1_Inr:
  "sync1 rc c r w seg = Inr s \<Longrightarrow> frame_rate s = r \<and> channels s = c"
  by (auto simp: sync1_def split: sum.splits dest!: set_channels_Inr set_frame_rate_Inr)

lemma append_Inr:
  assumes "append rc seg1 seg2 = Inr s"
  shows "frame_rate s = max (frame_rate seg1) (frame_rate seg2)
         \<and> channels s = max (channels seg1) (channels seg2)"
  using assms by (auto simp: append_def Let_def split: sum.splits dest!: sync1_Inr)

lemma window_length:
  assumes "padded rc song = Inr audio" "0 < frame_rate audio" "0 < channels audio"
    and "100 * frame_rate audio \<le> int (frame_count audio)"
  shows "\<exists>w. first_100_second rc song = Inr w \<and> int (length (samples w)) = 100 * frame_rate audio"
proof -
  let ?cut = "audio\<lparr>samples := take (nat (100 * frame_rate audio) * channels audio) (samples audio)\<rparr>"
  have len: "length (samples ?cut) = nat (100 * frame_rate audio) * channels audio"
  proof -
    have "nat (100 * frame_rate audio) \<le> frame_count audio" using assms(4) by simp
    then have "nat (100 * frame_rate audio) * channels audio \<le> frame_count audio * channels audio"
      by simp
    also have "\<dots> \<le> length (samples audio)" by (simp add: frame_count_def)
    finally show ?thesis by simp
  qed
  then have fc: "frame_count ?cut = nat (100 * frame_rate audio)"
    using assms(3) by (simp add: frame_count_def)
  have eq: "first_100_second rc song = set_channels 1 ?cut"
    by (simp add: first_100_second_def assms(1) slice_full [OF assms(2,3,4)])
  from set_channels_mono [of ?cut] assms(3)
  obtain w where w: "set_channels 1 ?cut = Inr w" "length (samples w) = frame_count ?cut"
    by auto
  have "int (length (samples w)) = 100 * frame_rate audio"
    using w(2) fc assms(2) by simp
  with w(1) show ?thesis unfolding eq by blast
qed

lemma pad_ms_floor:
  assumes "duration_seconds song < 101"
  shows "pad_ms song = \<lfloor>(120 - duration_seconds song) * 1000\<rfloor>"
  using assms by (simp add: pad_ms_def py_int_def)

lemma padding_total:
  fixes d :: real
  assumes "p = \<lfloor>(120 - d) * 1000\<rfloor>"
  shows "119999 / 1000 < d + of_int p / 1000 \<and> d + of_int p / 1000 \<le> 120
         \<and> (d + of_int p / 1000 = 120 \<longleftrightarrow> (\<exists>k::int. d * 1000 = of_int k))"
proof -
  let ?x = "(120 - d) * 1000"
  have b: "of_int p \<le> ?x" "?x < of_int p + 1"
    unfolding assms by linarith+
  have "(d + of_int p / 1000 = 120) \<longleftrightarrow> (of_int p = ?x)"
    by (simp add: field_simps)
  also have "\<dots> \<longleftrightarrow> (\<exists>k::int. d * 1000 = of_int k)"
  proof
    assume "of_int p = ?x"
    then have "d * 1000 = of_int (120000 - p)" by simp
    then show "\<exists>k::int. d * 1000 = of_int k" by blast
  next
    assume "\<exists>k::int. d * 1000 = of_int k"
    then obtain k :: int where k: "d * 1000 = of_int k" by blast
    then have "?x = of_int (120000 - k)" by simp
    then have "\<lfloor>?x\<rfloor> = 120000 - k" by (simp only: floor_of_int)
    with \<open>?x = of_int (120000 - k)\<close> show "of_int p = ?x" by (simp add: assms)
  qed
  finally show ?thesis using b by (simp add: field_simps)
qed

lemma long_song_frames:
  assumes "0 < frame_rate song" "101 \<le> duration_seconds song"
  shows "100 * frame_rate song \<le> int (frame_count song)"
proof -
  have "101 * of_int (frame_rate song) \<le> (of_nat (frame_count song) :: real)"
    using assms by (simp add: duration_seconds_def field_simps)
  then have "(of_int (100 * frame_rate song) :: real) \<le> of_int (int (frame_count song))"
    using assms(1) by simp
  then show ?thesis by (simp only: of_int_le_iff)
qed

lemma padded_rate:
  assumes "duration_seconds song < 101" "padded rc song = Inr audio"
  shows "frame_rate audio = max (frame_rate song) 11025 \<and> channels audio = max (channels song) 1"
  using assms append_Inr [of rc song "silent (pad_ms song)" audio]
  by (simp add: padded_def silent_def)

lemma padding_and_window:
  assumes "0 < frame_rate song" "0 < channels song"
  shows "(duration_seconds song < 101 \<longrightarrow>
            padded rc song = append rc song (silent (pad_ms song))
            \<and> pad_ms song = \<lfloor>(120 - duration_seconds song) * 1000\<rfloor>
            \<and> 119999 / 1000 < duration_seconds song + of_int (pad_ms song) / 1000
            \<and> duration_seconds song + of_int (pad_ms song) / 1000 \<le> 120
            \<and> (duration_seconds song + of_int (pad_ms song) / 1000 = 120
                 \<longleftrightarrow> (\<exists>k::int. duration_seconds song * 1000 = of_int k))
            \<and> (\<forall>audio. padded rc song = Inr audio \<longrightarrow> frame_rate audio = max (frame_rate song) 11025))
       \<and> (101 \<le> duration_seconds song \<longrightarrow>
            padded rc song = Inr song \<and> 100 * frame_rate song \<le> int (frame_count song))
       \<and> (\<forall>audio. padded rc song = Inr audio \<and> 100 * frame_rate audio \<le> int (frame_count audio)
             \<longrightarrow> (\<exists>w. first_100_second rc song = Inr w
                      \<and> int (length (samples w)) = 100 * frame_rate audio))"
proof (intro conjI impI allI)
  assume d: "duration_seconds song < 101"
  show "padded rc song = append rc song (silent (pad_ms song))"
    using d by (simp add: padded_def)
  show p: "pad_ms song = \<lfloor>(120 - duration_seconds song) * 1000\<rfloor>"
    by (rule pad_ms_floor [OF d])
  from padding_total [OF p]
  show "119999 / 1000 < duration_seconds song + of_int (pad_ms song) / 1000"
    and "duration_seconds song + of_int (pad_ms song) / 1000 \<le> 120"
    and "duration_seconds song + of_int (pad_ms song) / 1000 = 120
           \<longleftrightarrow> (\<exists>k::int. duration_seconds song * 1000 = of_int k)"
    by blast+
  fix audio assume "padded rc song = Inr audio"
  from padded_rate [OF d this] show "frame_rate audio = max (frame_rate song) 11025" by simp
next
  assume d: "101 \<le> duration_seconds song"
  then show "padded rc song = Inr song" by (simp add: padded_def)
  from long_song_frames [OF assms(1) d] show "100 * frame_rate song \<le> int (frame_count song)" .
next
  fix audio
  assume a: "padded rc song = Inr audio \<and> 100 * frame_rate audio \<le> int (frame_count audio)"
  then have a1: "padded rc song = Inr audio" and a2: "100 * frame_rate audio \<le> int (frame_count audio)"
    by blast+
  have "0 < frame_rate audio \<and> 0 < channels audio"
  proof (cases "duration_seconds song < 101")
    case True
    from padded_rate [OF True a1] assms show ?thesis by auto
  next
    case False
    with a1 assms show ?thesis by (simp add: padded_def)
  qed
  then have "0 < frame_rate audio" and "0 < channels audio" by blast+
  then show "\<exists>w. first_100_second rc song = Inr w \<and> int (length (samples w)) = 100 * frame_rate audio"
    by (rule window_length [OF a1 _ _ a2])
qed

lemma padded80:
  "padded rc song80 = Inr \<lparr>frame_rate = 11025, channels = 1, sample_width = 2, samples = replicate 1322994 0\<rparr>"
  by (simp add: padded_def pad_ms_def duration_seconds_def song80_def frame_count_def py_int_def
      silent_def append_def sync1_def set_channels_def set_frame_rate_def set_sample_width_def
      replicate_add [symmetric])

lemma speed_change_same_rate:
  "speed_change rc sound 1 (frame_rate sound) = Inr sound"
  by (simp add: speed_change_def sound_with_altered_frame_rate_def set_frame_rate_def)

lemma altered_duration:
  assumes "0 < frame_rate sound" "0 < speed" "1 \<le> of_int (frame_rate sound) * speed"
  shows "samples (sound_with_altered_frame_rate sound speed) = samples sound
       \<and> channels (sound_with_altered_frame_rate sound speed) = channels sound
       \<and> frame_rate (sound_with_altered_frame_rate sound speed) = \<lfloor>of_int (frame_rate sound) * speed\<rfloor>
       \<and> duration_seconds sound / speed \<le> duration_seconds (sound_with_altered_frame_rate sound speed)
       \<and> (0 < frame_count sound \<longrightarrow>
            (duration_seconds (sound_with_altered_frame_rate sound speed) = duration_seconds sound / speed
               \<longleftrightarrow> (\<exists>k::int. of_int (frame_rate sound) * speed = of_int k)))
       \<and> (0 < frame_count sound \<and> speed < 1 \<longrightarrow>
            duration_seconds sound < duration_seconds (sound_with_altered_frame_rate sound speed))"
proof -
  let ?a = "sound_with_altered_frame_rate sound speed"
  let ?x = "of_int (frame_rate sound) * speed"
  let ?F = "of_nat (frame_count sound) :: real"
  have fr: "frame_rate ?a = \<lfloor>?x\<rfloor>"
    using assms by (simp add: sound_with_altered_frame_rate_def py_int_def)
  have pos: "0 < \<lfloor>?x\<rfloor>" using assms(3) by linarith
  then have rpos: "(0::real) < of_int \<lfloor>?x\<rfloor>" by simp
  have le: "of_int \<lfloor>?x\<rfloor> \<le> ?x" by linarith
  have xpos: "0 < ?x" using assms by simp
  have fc: "frame_count ?a = frame_count sound"
    by (simp add: sound_with_altered_frame_rate_def frame_count_def)
  have da: "duration_seconds ?a = ?F / of_int \<lfloor>?x\<rfloor>"
    using pos by (simp add: duration_seconds_def fr fc)
  have ds: "duration_seconds sound / speed = ?F / ?x"
    using assms by (simp add: duration_seconds_def)
  have 1: "duration_seconds sound / speed \<le> duration_seconds ?a"
    unfolding da ds using le rpos by (intro divide_left_mono) (auto intro: mult_pos_pos xpos)
  have 2: "duration_seconds ?a = duration_seconds sound / speed
             \<longleftrightarrow> (\<exists>k::int. ?x = of_int k)" if "0 < frame_count sound"
  proof -
    have Fpos: "0 < ?F" using that by simp
    have "?F / of_int \<lfloor>?x\<rfloor> = ?F / ?x \<longleftrightarrow> of_int \<lfloor>?x\<rfloor> = ?x"
      using Fpos rpos xpos by (simp add: field_simps)
    also have "\<dots> \<longleftrightarrow> (\<exists>k::int. ?x = of_int k)"
      by (metis floor_of_int)
    finally show ?thesis unfolding da ds .
  qed
  have 3: "duration_seconds sound < duration_seconds ?a" if "0 < frame_count sound" "speed < 1"
  proof -
    have Fpos: "0 < ?F" using that by simp
    have "?x < of_int (frame_rate sound)" using that assms by simp
    with le have "(of_int \<lfloor>?x\<rfloor> :: real) < of_int (frame_rate sound)" by linarith
    then have "?F / of_int (frame_rate sound) < ?F / of_int \<lfloor>?x\<rfloor>"
      using Fpos rpos by (intro divide_strict_left_mono) (auto intro: mult_pos_pos simp: assms)
    moreover have "duration_seconds sound = ?F / of_int (frame_rate sound)"
      using assms(1) by (simp add: duration_seconds_def)
    ultimately show ?thesis unfolding da by simp
  qed
  show ?thesis using fr 1 2 3
    by (simp add: sound_with_altered_frame_rate_def)
qed

subsection \<open>The conversion of one file and the batch loop\<close>

lemma attempted_append: "attempted (xs @ ys) = attempted xs @ attempted ys"
  by (induction xs rule: attempted.induct) auto

lemma conversions_append: "conversions (xs @ ys) = conversions xs + conversions ys"
  by (induction xs rule: conversions.induct) auto

lemma print_simps [simp]:
  "files (print e w) = files w" "dirs (print e w) = dirs w" "out (print e w) = out w @ [e]"
  by (simp_all add: print_def)

lemma write_file_simps [simp]:
  "dirs (write_file p c w) = dirs w" "out (write_file p c w) = out w"
  "isfile (write_file p c w) p"
  by (simp_all add: write_file_def isfile_def)

lemma exists_print [simp]: "exists (print e w) p = exists w p"
  by (simp add: exists_def isfile_def isdir_def)

lemma isdir_print [simp]: "isdir (print e w) p = isdir w p"
  by (simp add: isdir_def)

lemma export_cases:
  "export k seg p fmt br w = (r, w') \<Longrightarrow>
     out w' = out w \<and> dirs w' = dirs w \<and> (r = Inr () \<longrightarrow> isfile w' p)
     \<and> (\<exists>e. r = Inl e \<or> r = Inr ())"
  by (auto simp: export_def Let_def split: if_splits sum.splits)

lemma convert_body_out:
  assumes "convert_body k f outf fmt br sr w = (r, w')"
  shows "\<exists>es. out w' = out w @ es \<and> attempted es = [] \<and> dirs w' = dirs w
           \<and> conversions es \<le> 1
           \<and> (conversions es = 1 \<longrightarrow> r = Inr () \<and> isfile w' (output_path f outf fmt))
           \<and> (exists w (output_path f outf fmt) \<longrightarrow> files w' = files w \<and> conversions es = 0 \<and> r = Inr ())"
proof (cases "endswith (lower f) SUPPORTED_FORMATS")
  case False
  with assms show ?thesis by (auto simp: convert_body_def)
next
  case sup: True
  let ?op = "output_path f outf fmt"
  show ?thesis
  proof (cases "exists w ?op")
    case True
    with sup assms show ?thesis by (auto simp: convert_body_def Let_def)
  next
    case ne: False
    let ?w1 = "print (Converting f) w"
    show ?thesis
    proof (cases "read_audio k ?w1 f")
      case (Inl e)
      with sup ne assms show ?thesis by (auto simp: convert_body_def Let_def)
    next
      case song: (Inr song)
      show ?thesis
      proof (cases "analyze_tone (ratecv_of k) song")
        case (Inl e)
        with sup ne song assms show ?thesis by (auto simp: convert_body_def Let_def)
      next
        case tone: (Inr tone)
        let ?w2 = "print (Detected tone) ?w1"
        show ?thesis
        proof (cases "tone = 0")
          case True
          with sup ne song tone assms show ?thesis by (auto simp: convert_body_def Let_def)
        next
          case nz: False
          show ?thesis
          proof (cases "speed_change (ratecv_of k) song (TARGET_FREQUENCY / tone) sr")
            case (Inl e)
            with sup ne song tone nz assms show ?thesis by (auto simp: convert_body_def Let_def)
          next
            case new: (Inr new_song)
            obtain r3 w3 where ex: "export k new_song ?op fmt br ?w2 = (r3, w3)"
              by (cases "export k new_song ?op fmt br ?w2") auto
            from export_cases [OF ex]
            have e3: "out w3 = out ?w2" "dirs w3 = dirs ?w2" "r3 = Inr () \<longrightarrow> isfile w3 ?op"
              "\<exists>e. r3 = Inl e \<or> r3 = Inr ()" by blast+
            show ?thesis
            proof (cases r3)
              case (Inl e)
              with sup ne song tone nz new ex assms
              have "r = Inl e" "w' = w3" by (auto simp: convert_body_def Let_def)
              with e3 ne show ?thesis by (auto simp: isfile_def)
            next
              case (Inr u)
              with sup ne song tone nz new ex assms
              have "r = Inr ()" "w' = print (Saved ?op) w3" by (auto simp: convert_body_def Let_def)
              with e3 ne Inr show ?thesis by (auto simp: isfile_def print_def)
            qed
          qed
        qed
      qed
    qed
  qed
qed

lemma convert_to_432hz_out:
  assumes "convert_to_432hz k f outf fmt br sr w = (r, w')"
  shows "r = Inr () \<and> (\<exists>es. out w' = out w @ es \<and> attempted es = [] \<and> dirs w' = dirs w
           \<and> conversions es \<le> 1
           \<and> (conversions es = 1 \<longrightarrow> isfile w' (output_path f outf fmt))
           \<and> (exists w (output_path f outf fmt) \<longrightarrow> files w' = files w \<and> conversions es = 0))"
proof -
  obtain rb wb where b: "convert_body k f outf fmt br sr w = (rb, wb)"
    by (cases "convert_body k f outf fmt br sr w") auto
  from convert_body_out [OF b] obtain es where es: "out wb = out w @ es" "attempted es = []"
    "dirs wb = dirs w" "conversions es \<le> 1"
    "conversions es = 1 \<longrightarrow> rb = Inr () \<and> isfile wb (output_path f outf fmt)"
    "exists w (output_path f outf fmt) \<longrightarrow> files wb = files w \<and> conversions es = 0 \<and> rb = Inr ()"
    by blast
  show ?thesis
  proof (cases rb)
    case (Inl e)
    with b assms have r: "r = Inr ()" "w' = print (Failed f e) wb"
      by (auto simp: convert_to_432hz_def)
    have "out w' = out w @ (es @ [Failed f e])" using r es by simp
    moreover have "attempted (es @ [Failed f e]) = []" "conversions (es @ [Failed f e]) = conversions es"
      using es by (simp_all add: attempted_append conversions_append)
    ultimately show ?thesis using r es Inl
      by (intro conjI exI [of _ "es @ [Failed f e]"]) (auto simp: isfile_def)
  next
    case (Inr u)
    with b assms have r: "r = Inr ()" "w' = wb"
      by (auto simp: convert_to_432hz_def)
    with es show ?thesis by auto
  qed
qed

lemma batch_loop_out:
  "\<exists>w'. batch_loop k d outf fmt br sr n i fs w = (Inr (), w')
        \<and> attempted (out w') = attempted (out w) @ fs \<and> dirs w' = dirs w"
proof (induction fs arbitrary: i w)
  case Nil
  then show ?case by simp
next
  case (Cons f fs)
  let ?w0 = "print (FileOf i n f) w"
  obtain r w1 where c: "convert_to_432hz k (join d f) outf fmt br sr ?w0 = (r, w1)"
    by (cases "convert_to_432hz k (join d f) outf fmt br sr ?w0") auto
  from convert_to_432hz_out [OF c] obtain es where es: "r = Inr ()" "out w1 = out ?w0 @ es"
    "attempted es = []" "dirs w1 = dirs ?w0" by blast
  from Cons.IH [of "Suc i" "print (Progress i n) w1"]
  obtain w' where w': "batch_loop k d outf fmt br sr n (Suc i) fs (print (Progress i n) w1) = (Inr (), w')"
    "attempted (out w') = attempted (out (print (Progress i n) w1)) @ fs"
    "dirs w' = dirs (print (Progress i n) w1)" by blast
  have "attempted (out (print (Progress i n) w1)) = attempted (out w) @ [f]"
    using es by (simp add: attempted_append)
  with w' c es show ?case by simp
qed

lemma batch_attempts_all:
  assumes "isdir w d"
  shows "fst (batch_convert_directory k d outf fmt br sr w) = Inr ()
       \<and> attempted (out (snd (batch_convert_directory k d outf fmt br sr w)))
           = attempted (out w) @ files_to_convert (listdir w d)"
proof -
  let ?fs = "files_to_convert (listdir w d)"
  from batch_loop_out [of k d outf fmt br sr "length ?fs" 1 ?fs "print (Found (length ?fs) d) w"]
  obtain w' where "batch_loop k d outf fmt br sr (length ?fs) 1 ?fs (print (Found (length ?fs) d) w) = (Inr (), w')"
    "attempted (out w') = attempted (out (print (Found (length ?fs) d) w)) @ ?fs" by blast
  with assms show ?thesis
    by (simp add: batch_convert_directory_def Let_def attempted_append)
qed

subsection \<open>The orchestrator examples, evaluated\<close>

lemma analyze_click: "analyze_tone rc click = Inr 424"
proof -
  let ?w = "\<lparr>frame_rate = 11025, channels = 1, sample_width = 2, samples = 1 # replicate 1102499 0\<rparr>"
  let ?fs = "of_int (frame_rate click) / of_nat (length (samples ?w)) :: real"
  let ?agg = "aggregate ?fs (fft_normed (samples ?w))"
  have fr: "frame_rate click = 11025" by (simp add: click_def)
  have rng: "\<forall>c\<in>set candidates. \<forall>t\<in>set (ladder c). 0 \<le> rint (t / ?fs) \<and> rint (t / ?fs) < int 1102500"
    using bins_in_range_100s [of 11025] by (simp add: fr)
  then have inrange: "\<forall>c\<in>set candidates. \<forall>t\<in>set (ladder c). rint (t / ?fs) < int (length (samples ?w))"
    by simp
  have spec: "fft_normed (samples ?w) = replicate 1102500 (1 / 1102500)"
    using fft_normed_impulse [of 1102499] by simp
  have agg: "?agg c = 108 / 1102500" if "c \<in> set candidates" for c
    unfolding spec using aggregate_flat [of c ?fs 1102500 "1 / 1102500"] rng that by simp
  from analyze_tone_char [OF first_click _ _ inrange, of rc]
  obtain f where f: "analyze_tone rc click = Inr f"
    and sel: "if \<forall>c\<in>set candidates. ?agg c \<le> 0 then f = 0
      else f \<in> set candidates \<and>
           (\<forall>c\<in>set candidates. ?agg c \<le> ?agg f \<and> (c < f \<longrightarrow> ?agg c < ?agg f))"
    by (auto simp: fr)
  have neg: "\<not> (\<forall>c\<in>set candidates. ?agg c \<le> 0)"
  proof
    assume "\<forall>c\<in>set candidates. ?agg c \<le> 0"
    with candidate_424 have "?agg 424 \<le> 0" by blast
    then show False unfolding agg [OF candidate_424] by simp
  qed
  note both = sel [unfolded if_not_P [OF neg]]
  have "f = 424"
    by (rule lowest_of_equals [OF both candidate_424, of "108 / 1102500"])
       (use agg candidates_bounds in auto)
  with f show ?thesis by simp
qed

lemmas path_defs = output_path_def dirname_def basename_def path_split_def splitext_def join_def
  rstrip_sep_def suffix_to_prefix

lemmas fs_defs = exists_def isfile_def isdir_def listdir_def child_def write_file_def print_def
  os_remove_def os_rmdir_def makedirs_exist_ok_def read_audio_def export_def List.map_filter_def

lemma supported_b: "endswith (lower ''music/b.mp3'') SUPPORTED_FORMATS"
  by (simp add: endswith_def lower_def lower_char_def SUPPORTED_FORMATS_def suffix_to_prefix)

lemma supported_a: "endswith (lower ''music/a.mp3'') SUPPORTED_FORMATS"
  by (simp add: endswith_def lower_def lower_char_def SUPPORTED_FORMATS_def suffix_to_prefix)

lemma supported_title: "endswith (lower ''temp_youtube_audio/Title.mp3'') SUPPORTED_FORMATS"
  by (simp add: endswith_def lower_def lower_char_def SUPPORTED_FORMATS_def suffix_to_prefix)

lemma supported_title2: "endswith (lower ''temp_audio_downloads/Title.mp3'') SUPPORTED_FORMATS"
  by (simp add: endswith_def lower_def lower_char_def SUPPORTED_FORMATS_def suffix_to_prefix)

lemma out_b: "output_path ''music/b.mp3'' None ''mp3'' = ''music/432hz_b.mp3''"
  by (simp add: path_defs)

lemma out_a: "output_path ''music/a.mp3'' None ''mp3'' = ''music/432hz_a.mp3''"
  by (simp add: path_defs)

lemma out_title: "output_path ''temp_youtube_audio/Title.mp3'' None ''mp3'' = ''temp_youtube_audio/432hz_Title.mp3''"
  by (simp add: path_defs)

lemma out_title2: "output_path ''temp_audio_downloads/Title.mp3'' None ''mp3'' = ''temp_audio_downloads/432hz_Title.mp3''"
  by (simp add: path_defs)

lemma speed_click:
  "speed_change hold_ratecv click (TARGET_FREQUENCY / 424) 48000
     = Inr (click\<lparr>frame_rate := 48000, samples := hold_ratecv 2 1 11233 48000 (samples click)\<rparr>)"
  by (simp add: speed_change_def sound_with_altered_frame_rate_def set_frame_rate_def click_def
      TARGET_FREQUENCY_def py_int_def)

lemma convert_b:
  "convert_to_432hz demo ''music/b.mp3'' None ''mp3'' ''192k'' 48000 music
     = (Inr (), \<lparr>files = (''music/432hz_b.mp3'', [2]) # files music, dirs = [''music''],
                 out = [Converting ''music/b.mp3'', Detected 424, Saved ''music/432hz_b.mp3'']\<rparr>)"
  by (simp add: convert_to_432hz_def convert_body_def supported_b out_b Let_def)
     (simp add: fs_defs demo_def music_def analyze_click speed_click dirname_def path_split_def rstrip_sep_def)

lemma body_a:
  "convert_body demo ''music/a.mp3'' None ''mp3'' ''192k'' 48000 music
     = (Inl CouldntDecodeError, print (Converting ''music/a.mp3'') music)"
  by (simp add: convert_body_def supported_a out_a Let_def)
     (simp add: fs_defs demo_def music_def)

lemma listdir_music: "files_to_convert (listdir music ''music'') = [''a.mp3'', ''b.mp3'']"
  by (simp add: fs_defs music_def files_to_convert_def endswith_def startswith_def lower_def
      lower_char_def SUPPORTED_FORMATS_def suffix_to_prefix)

lemma main_cmd_url:
  "main_commandconverter432 demo url_args empty_world
     = (Inl OSError, \<lparr>files = [(''temp_youtube_audio/432hz_Title.mp3'', [2])],
                      dirs = [''temp_youtube_audio''],
                      out = [Converting ''temp_youtube_audio/Title.mp3'', Detected 424,
                             Saved ''temp_youtube_audio/432hz_Title.mp3'']\<rparr>)"
proof -
  have dl: "download_youtube_audio demo [''https://youtu.be/x''] ''temp_youtube_audio''
              \<lparr>files = [], dirs = [''temp_youtube_audio''], out = []\<rparr>
            = (Inr [''temp_youtube_audio/Title.mp3''],
               \<lparr>files = [(''temp_youtube_audio/Title.mp3'', [4])], dirs = [''temp_youtube_audio''], out = []\<rparr>)"
    by (simp add: download_youtube_audio_def demo_def fs_defs join_def suffix_to_prefix)
  have cv: "convert_to_432hz demo ''temp_youtube_audio/Title.mp3'' None ''mp3'' ''192k'' 48000
              \<lparr>files = [(''temp_youtube_audio/Title.mp3'', [4])], dirs = [''temp_youtube_audio''], out = []\<rparr>
            = (Inr (), \<lparr>files = [(''temp_youtube_audio/432hz_Title.mp3'', [2]),
                                  (''temp_youtube_audio/Title.mp3'', [4])],
                         dirs = [''temp_youtube_audio''],
                         out = [Converting ''temp_youtube_audio/Title.mp3'', Detected 424,
                                Saved ''temp_youtube_audio/432hz_Title.mp3'']\<rparr>)"
    by (simp add: convert_to_432hz_def convert_body_def supported_title out_title Let_def)
       (simp add: fs_defs demo_def analyze_click speed_click dirname_def path_split_def rstrip_sep_def)
  show ?thesis
    by (simp add: main_commandconverter432_def url_args_def empty_world_def Let_def)
       (simp add: makedirs_exist_ok_def isdir_def isfile_def dl cv, simp add: fs_defs suffix_to_prefix)
qed

lemma main_conv_url:
  "main_converter demo url_args empty_world
     = (Inr (), \<lparr>files = [], dirs = [],
                 out = [Converting ''temp_audio_downloads/Title.mp3'', Detected 424,
                        Saved ''temp_audio_downloads/432hz_Title.mp3'']\<rparr>)"
proof -
  have dl: "download_youtube_audio demo [''https://youtu.be/x''] ''temp_audio_downloads''
              \<lparr>files = [], dirs = [''temp_audio_downloads''], out = []\<rparr>
            = (Inr [''temp_audio_downloads/Title.mp3''],
               \<lparr>files = [(''temp_audio_downloads/Title.mp3'', [4])], dirs = [''temp_audio_downloads''], out = []\<rparr>)"
    by (simp add: download_youtube_audio_def demo_def fs_defs join_def suffix_to_prefix)
  have cv: "convert_to_432hz demo ''temp_audio_downloads/Title.mp3'' None ''mp3'' ''192k'' 48000
              \<lparr>files = [(''temp_audio_downloads/Title.mp3'', [4])], dirs = [''temp_audio_downloads''], out = []\<rparr>
            = (Inr (), \<lparr>files = [(''temp_audio_downloads/432hz_Title.mp3'', [2]),
                                  (''temp_audio_downloads/Title.mp3'', [4])],
                         dirs = [''temp_audio_downloads''],
                         out = [Converting ''temp_audio_downloads/Title.mp3'', Detected 424,
                                Saved ''temp_audio_downloads/432hz_Title.mp3'']\<rparr>)"
    by (simp add: convert_to_432hz_def convert_body_def supported_title2 out_title2 Let_def)
       (simp add: fs_defs demo_def analyze_click speed_click dirname_def path_split_def rstrip_sep_def)
  show ?thesis
    by (simp add: main_converter_def url_args_def empty_world_def Let_def)
       (simp add: makedirs_exist_ok_def isdir_def isfile_def dl cv cleanup_def, simp add: fs_defs join_def suffix_to_prefix)
qed

lemma main_cmd_offline:
  "main_commandconverter432 demo_offline url_args empty_world
     = (Inl DownloadError, \<lparr>files = [], dirs = [''temp_youtube_audio''], out = []\<rparr>)"
proof -
  have dl: "download_youtube_audio demo_offline [''https://youtu.be/x''] ''temp_youtube_audio''
              \<lparr>files = [], dirs = [''temp_youtube_audio''], out = []\<rparr>
            = (Inl DownloadError, \<lparr>files = [], dirs = [''temp_youtube_audio''], out = []\<rparr>)"
    by (simp add: download_youtube_audio_def demo_offline_def demo_def)
  show ?thesis
    by (simp add: main_commandconverter432_def url_args_def empty_world_def Let_def)
       (simp add: makedirs_exist_ok_def isdir_def isfile_def dl)
qed

lemma main_conv_offline:
  "main_converter demo_offline url_args empty_world
     = (Inl DownloadError, \<lparr>files = [], dirs = [], out = []\<rparr>)"
proof -
  have dl: "download_youtube_audio demo_offline [''https://youtu.be/x''] ''temp_audio_downloads''
              \<lparr>files = [], dirs = [''temp_audio_downloads''], out = []\<rparr>
            = (Inl DownloadError, \<lparr>files = [], dirs = [''temp_audio_downloads''], out = []\<rparr>)"
    by (simp add: download_youtube_audio_def demo_offline_def demo_def)
  show ?thesis
    by (simp add: main_converter_def url_args_def empty_world_def Let_def)
       (simp add: makedirs_exist_ok_def isdir_def isfile_def dl cleanup_def, simp add: fs_defs)
qed

section \<open>The claims\<close>




text \<open>
  C2. An out-of-range bin index is claimed to contribute zero to the score. Neither
  script clamps: the indices go to numpy unchecked, and numpy answers an index of
  \<open>N\<close> or more (or below \<open>-N\<close>) with \<^verbatim>\<open>IndexError\<close>, so the candidate
  gets no score and \<^verbatim>\<open>analyze_tone\<close> raises; an index from \<open>-N\<close> to \<open>-1\<close>
  would read from the end of the spectrum. What holds: the score is the sum of the
  magnitudes at the bin indices when all of them are valid numpy indices, and the
  scoring raises \<^verbatim>\<open>IndexError\<close> otherwise; nothing outside the spectrum is read.
  At 8000 Hz the top note of candidate 448 falls on bin 804580 of 800000.
\<close>

theorem score_raises_on_out_of_range_bin:
  "score freqstep spec tone =
     (if \<forall>t\<in>set tone. - int (length spec) \<le> rint (t / freqstep) \<and> rint (t / freqstep) < int (length spec)
      then Inr (\<Sum>t\<leftarrow>tone. spec ! nat (if rint (t / freqstep) < 0 then rint (t / freqstep) + int (length spec)
                                          else rint (t / freqstep)))
      else Inl IndexError)
   \<and> (spec \<noteq> [] \<and> sample_rate \<noteq> 0
        \<and> (\<exists>c\<in>set candidates. \<exists>t\<in>set (ladder c).
               int (length spec) \<le> rint (t / (of_int sample_rate / of_nat (length spec))))
      \<longrightarrow> find_tuning sample_rate spec = Inl IndexError)"
  using score_cases [of freqstep spec tone] find_tuning_IndexError [of spec sample_rate]
  by blast

theorem score_raises_on_out_of_range_bin_witness:
  "score 1 [1, 2, 3] [2 / 5, 8 / 5] = Inr 4 \<and> score 1 [1, 2, 3] [2 / 5, 3] = Inl IndexError
   \<and> find_tuning 8000 (replicate 800000 0) = Inl IndexError"
proof -
  have a: "score 1 [1, 2, 3] [2 / 5, 8 / 5] = Inr 4"
    using score_raises_on_out_of_range_bin [of 1 "[1, 2, 3]" "[2 / 5, 8 / 5]"]
    by (simp add: rint_def)
  have b: "score 1 [1, 2, 3] [2 / 5, 3] = Inl IndexError"
    using score_raises_on_out_of_range_bin [of 1 "[1, 2, 3]" "[2 / 5, 3]"]
    by (simp add: rint_def)
  have "int (length (replicate 800000 (0::real)))
          \<le> rint ((790213 / 100 * 448 / 440) / (of_int 8000 / of_nat (length (replicate 800000 (0::real)))))"
    by (simp add: rint_def)
  with candidate_448 top_note_448
  have "\<exists>c\<in>set candidates. \<exists>t\<in>set (ladder c).
          int (length (replicate 800000 (0::real)))
            \<le> rint (t / (of_int 8000 / of_nat (length (replicate 800000 (0::real)))))"
    by blast
  with score_raises_on_out_of_range_bin [of _ "replicate 800000 0" _ 8000]
  have "find_tuning 8000 (replicate 800000 0) = Inl IndexError"
    by simp
  with a b show ?thesis by simp
qed

theorem score_raises_at_telephone_rate:
  "score (8000 / 800000) (replicate 800000 0) (ladder 448) = Inl IndexError
   \<and> analyze_tone hold_ratecv telephone_silence = Inl IndexError"
  by (simp only: score_telephone analyze_telephone)




text \<open>
  C4. The candidate grid is claimed to hold exactly 241 candidates, \<open>424.0 + i * 0.1\<close>
  for \<open>i\<close> from 0 to 240, each with the 440 Hz ladder scaled by \<open>candidate / 440\<close>.
  The scripts build the grid with \<^verbatim>\<open>np.arange(424.0, 448.1, 0.1)\<close>, whose length is
  \<open>ceil((448.1 - 424.0) / 0.1)\<close> in binary64: the quotient rounds to
  \<open>241.00000000000023\<close>, so the grid has 242 candidates and the last of them is
  \<open>448.1\<close>, outside \<open>[424.0, 448.0]\<close>. The ladders are scaled as claimed.
\<close>

theorem tones_grid_has_242_candidates:
  "241 < fl (fl (fl (4481 / 10) - fl 424) / fl (1 / 10))
   \<and> length candidates = 242 \<and> distinct candidates \<and> card (dom tones) = 242
   \<and> candidates ! 240 = 448 \<and> last candidates = 4481 / 10
   \<and> tones (4481 / 10) = Some (map (\<lambda>t. t * ((4481 / 10) / 440)) tone_freq)"
proof -
  have last: "last candidates = 4481 / 10"
    by (simp add: last_conv_nth length_candidates candidates_nth flip: length_0_conv)
  have "last candidates \<in> set candidates"
    by (rule last_in_set) (use length_candidates in auto)
  then have mem: "(4481 / 10 :: real) \<in> set candidates"
    by (simp only: last)
  have card: "card (dom tones) = 242"
    by (simp add: dom_tones distinct_card [OF distinct_candidates] length_candidates)
  have "candidates ! 240 = 448"
    by (simp add: candidates_nth)
  with last card tones_candidate [OF mem]
  have grid: "length candidates = 242 \<and> distinct candidates \<and> card (dom tones) = 242
      \<and> candidates ! 240 = 448 \<and> last candidates = 4481 / 10
      \<and> tones (4481 / 10) = Some (map (\<lambda>t. t * ((4481 / 10) / 440)) tone_freq)"
    by (simp add: length_candidates distinct_candidates ladder_def)
  have "(241::real) < 1059929209176065 / 4398046511104"
    by simp
  then have "241 < fl (fl (fl (4481 / 10) - fl 424) / fl (1 / 10))"
    by (simp only: fl_literals(5))
  with grid show ?thesis by (rule conjI [rotated])
qed




text \<open>
  C6. With the ratio 1.0 and the target rate equal to the rate of the buffer, the
  resampler returns the buffer itself: the frame rate is overridden by its own value and
  \<^verbatim>\<open>set_frame_rate\<close> returns a segment whose rate already is the target. No
  rate conversion runs, whatever the converter.
\<close>

theorem speed_change_identity:
  "speed_change rc sound 1 (frame_rate sound) = Inr sound"
  by (rule speed_change_same_rate)

theorem speed_change_identity_witness:
  "speed_change hold_ratecv click 1 11025 = Inr click \<and> samples click = 1 # replicate 11024 0"
  using speed_change_identity [of hold_ratecv click] by (simp add: click_def)



text \<open>
  C8. Batch mode selects exactly the names of the listing that end, compared without
  regard to case, in one of the supported extensions and that do not begin with
  \<open>432hz_\<close>, in the order of the listing; no selected name begins with \<open>432hz_\<close>.
\<close>

theorem batch_selects_supported_unprefixed:
  "files_to_convert listing =
     filter (\<lambda>f. (\<exists>stem ext. f = stem @ ext \<and> lower ext \<in> set SUPPORTED_FORMATS)
                 \<and> (\<nexists>rest. f = ''432hz_'' @ rest)) listing
   \<and> (\<forall>f \<in> set (files_to_convert listing). \<not> prefix ''432hz_'' f)"
  by (auto simp: files_to_convert_def endswith_lower_iff startswith_def prefix_def
           intro!: filter_cong)

theorem batch_selects_supported_unprefixed_witness:
  "files_to_convert [''a.MP3'', ''432hz_a.mp3'', ''b.txt'', ''c.Flac'', ''432HZ_d.wav'']
     = [''a.MP3'', ''c.Flac'', ''432HZ_d.wav'']
   \<and> \<not> prefix ''432hz_'' ''a.MP3'' \<and> \<not> prefix ''432hz_'' ''c.Flac''
   \<and> \<not> prefix ''432hz_'' ''432HZ_d.wav''"
proof -
  have "files_to_convert [''a.MP3'', ''432hz_a.mp3'', ''b.txt'', ''c.Flac'', ''432HZ_d.wav'']
          = [''a.MP3'', ''c.Flac'', ''432HZ_d.wav'']"
    by (simp add: files_to_convert_def endswith_def startswith_def lower_def lower_char_def
          SUPPORTED_FORMATS_def suffix_to_prefix)
  with batch_selects_supported_unprefixed
         [of "[''a.MP3'', ''432hz_a.mp3'', ''b.txt'', ''c.Flac'', ''432HZ_d.wav'']"]
  show ?thesis by simp
qed
text \<open>
  C9. \<^verbatim>\<open>convert_to_432hz\<close> never raises: whatever exception its body ends with,
  of the decoder, the detector, the resampler or the encoder, it prints the failure and
  returns. Batch mode over an existing directory therefore never raises either, and
  announces and attempts every selected name, in order.
\<close>

theorem per_file_failures_become_logged_skips:
  "fst (convert_to_432hz k f outf fmt br sr w) = Inr ()
   \<and> (\<forall>e w'. convert_body k f outf fmt br sr w = (Inl e, w')
         \<longrightarrow> convert_to_432hz k f outf fmt br sr w = (Inr (), print (Failed f e) w'))
   \<and> (isdir w d \<longrightarrow>
        fst (batch_convert_directory k d outf fmt br sr w) = Inr ()
        \<and> attempted (out (snd (batch_convert_directory k d outf fmt br sr w)))
            = attempted (out w) @ files_to_convert (listdir w d))"
proof -
  have "fst (convert_to_432hz k f outf fmt br sr w) = Inr ()"
    using convert_to_432hz_out [of k f outf fmt br sr w]
    by (cases "convert_to_432hz k f outf fmt br sr w") auto
  moreover have "\<forall>e w'. convert_body k f outf fmt br sr w = (Inl e, w')
         \<longrightarrow> convert_to_432hz k f outf fmt br sr w = (Inr (), print (Failed f e) w')"
    by (simp add: convert_to_432hz_def)
  ultimately show ?thesis using batch_attempts_all [of w d k outf fmt br sr] by blast
qed

theorem per_file_failures_become_logged_skips_witness:
  "convert_body demo ''music/a.mp3'' None ''mp3'' ''192k'' 48000 music
     = (Inl CouldntDecodeError, print (Converting ''music/a.mp3'') music)
   \<and> convert_to_432hz demo ''music/a.mp3'' None ''mp3'' ''192k'' 48000 music
     = (Inr (), print (Failed ''music/a.mp3'' CouldntDecodeError) (print (Converting ''music/a.mp3'') music))
   \<and> fst (batch_convert_directory demo ''music'' None ''mp3'' ''192k'' 48000 music) = Inr ()
   \<and> attempted (out (snd (batch_convert_directory demo ''music'' None ''mp3'' ''192k'' 48000 music)))
       = [''a.mp3'', ''b.mp3'']"
proof -
  note T = per_file_failures_become_logged_skips
             [of demo "''music/a.mp3''" None "''mp3''" "''192k''" 48000 music "''music''"]
  have d: "isdir music ''music''" by (simp add: isdir_def music_def)
  have o: "attempted (out music) = []" by (simp add: music_def)
  from T [THEN conjunct2, THEN conjunct1, THEN spec, THEN spec, THEN mp, OF body_a]
  have 1: "convert_to_432hz demo ''music/a.mp3'' None ''mp3'' ''192k'' 48000 music
     = (Inr (), print (Failed ''music/a.mp3'' CouldntDecodeError) (print (Converting ''music/a.mp3'') music))" .
  from T [THEN conjunct2, THEN conjunct2, THEN mp, OF d]
  have 2: "fst (batch_convert_directory demo ''music'' None ''mp3'' ''192k'' 48000 music) = Inr ()
        \<and> attempted (out (snd (batch_convert_directory demo ''music'' None ''mp3'' ''192k'' 48000 music)))
            = [''a.mp3'', ''b.mp3'']"
    by (simp only: o listdir_music append_Nil)
  from body_a 1 2 show ?thesis by blast
qed

text \<open>
  C10. The temporary download folder is claimed to be deleted on every exit path of a
  run in URL mode. \<^verbatim>\<open>converter.py\<close> does so in a \<^verbatim>\<open>finally\<close> block.
  \<^verbatim>\<open>commandconverter432.py\<close> has no such block and removes only the downloaded
  files before \<^verbatim>\<open>os.rmdir\<close>: without an output folder the converted file is written
  into the temporary folder, \<^verbatim>\<open>os.rmdir\<close> raises on the folder that is not empty,
  and the folder survives a run in which everything else succeeded; when the downloader
  raises, the cleanup is not reached at all. On the same inputs \<^verbatim>\<open>converter.py\<close>
  removes its folder.
\<close>

theorem url_mode_temp_folder_survives:
  "fst (main_commandconverter432 demo url_args empty_world) = Inl OSError
   \<and> isdir (snd (main_commandconverter432 demo url_args empty_world)) ''temp_youtube_audio''
   \<and> fst (main_commandconverter432 demo_offline url_args empty_world) = Inl DownloadError
   \<and> isdir (snd (main_commandconverter432 demo_offline url_args empty_world)) ''temp_youtube_audio''
   \<and> fst (main_converter demo url_args empty_world) = Inr ()
   \<and> \<not> isdir (snd (main_converter demo url_args empty_world)) ''temp_audio_downloads''
   \<and> fst (main_converter demo_offline url_args empty_world) = Inl DownloadError
   \<and> \<not> isdir (snd (main_converter demo_offline url_args empty_world)) ''temp_audio_downloads''"
  by (simp add: main_cmd_url main_cmd_offline main_conv_url main_conv_offline isdir_def)


end
